theory Spec2Isabelle
  imports Main "HOL-Library.Word" "HOL-Library.Sublist" "HOL-Library.Char_ord"
    "HOL-Library.List_Lexorder"
begin

unbundle bit_operations_syntax

section \<open>Data model\<close>

text \<open>
  A shallow embedding of \<^verbatim>\<open>transporthandler.cpp\<close>, the handler of the IPMI
  Get/Set LAN Configuration Parameters commands. C++ exceptions are values of \<open>exn\<close>;
  a function that talks to D-Bus takes the bus state and returns it, together with
  either the exception it threw or its result.
\<close>

type_synonym uint8_t = "8 word"
type_synonym uint16_t = "16 word"
type_synonym uint32_t = "32 word"

text \<open>
  \<open>InternalFailure\<close> is what \<^verbatim>\<open>elog<InternalFailure>()\<close> throws, \<open>SdBusError name\<close>
  an error reply of a bus call. \<open>EmptyOptionalAccess\<close> marks \<^verbatim>\<open>operator->\<close> applied to
  a \<^verbatim>\<open>std::optional\<close> that holds no value, and \<open>UndefinedShift\<close> a shift of a
  32-bit value by a negative count or by 32 or more; C++ leaves both undefined.
\<close>

datatype exn = InternalFailure | SdBusError string | EmptyOptionalAccess | UndefinedShift

datatype DHCPConf = both | v4 | v6 | none

datatype AddressOrigin = Static | DHCP | LinkLocal | SLAAC

datatype SetStatus = Complete | InProgress | Commit

datatype IPv6Source = SourceStatic | SourceDHCP | SourceSLAAC

datatype family = AF_INET | AF_INET6

text \<open>\<open>in_addr\<close> holds \<^verbatim>\<open>s_addr\<close> as the host reads it; \<open>in6_addr\<close> holds the 16 bytes.\<close>

datatype addr = in_addr uint32_t | in6_addr "uint8_t list"

type_synonym ether_addr = "uint8_t list"

fun familyOf :: "addr \<Rightarrow> family" where
  "familyOf (in_addr a) = AF_INET"
| "familyOf (in6_addr a) = AF_INET6"

datatype intf =
  INTF_ETHERNET | INTF_VLAN | INTF_IP | INTF_NEIGHBOR | INTF_MAC | DELETE_INTERFACE

record ChannelParams =
  chId :: uint8_t
  ifname :: string
  service :: string
  ifPath :: string
  logicalPath :: string

record IfAddr =
  path :: string
  address :: addr
  prefixLen :: uint8_t
  origin :: AddressOrigin

record IfNeigh =
  npath :: string
  ip :: addr
  mac :: ether_addr

datatype cc =
  ccSuccess | ccReqDataLenInvalid | ccInvalidFieldRequest | ccParamNotSupported
  | ccParamSetLocked | ccParamReadOnly | ccParmOutOfRange | ccCommandNotAvailable
  | ccUnspecifiedError

text \<open>
  The parameters whose cases of \<^verbatim>\<open>setLan\<close> and \<^verbatim>\<open>getLan\<close> are embedded below. The
  remaining cases of the two switches (MAC, IP source, gateway MAC, cipher suites, IP
  family, IPv6 router, OEM range) are not embedded.
\<close>

datatype LanParam =
  SetStatus | AuthSupport | AuthEnables | IP | SubnetMask | Gateway1 | VLANId
  | IPv6StaticAddresses | IPv6DynamicAddresses

section \<open>The network-management service behind the bus\<close>

text \<open>
  Modelled from the spec: the network-management service is an external collaborator
  (spec sections 1 and 6). It owns a tree of objects; an object is a physical Ethernet
  interface, a VLAN interface layered on one, an IP address or a static neighbor entry.
  Interfaces carry the combined DHCP mode, VLAN interfaces their id; VLANs, addresses
  and neighbors can be deleted.
\<close>

datatype objkind =
  EthernetIf DHCPConf
  | VlanIf uint32_t DHCPConf
  | IpAddr addr uint8_t AddressOrigin
  | StaticNeighbor addr ether_addr

record netobj =
  opath :: string
  oservice :: string
  okind :: objkind

fun implements :: "objkind \<Rightarrow> intf list" where
  "implements (EthernetIf d) = [INTF_ETHERNET, INTF_MAC]"
| "implements (VlanIf i d) = [INTF_VLAN, INTF_ETHERNET, DELETE_INTERFACE]"
| "implements (IpAddr a p g) = [INTF_IP, DELETE_INTERFACE]"
| "implements (StaticNeighbor a m) = [INTF_NEIGHBOR, DELETE_INTERFACE]"

text \<open>Every request put on the bus, in the order it is made.\<close>

datatype call =
  CallGetSubTree string "intf list"
  | CallGetDHCPEnabled string string
  | CallSetDHCPEnabled string string DHCPConf
  | CallGetVlanId string string
  | CallGetGateway string family
  | CallSetGateway string addr
  | CallDelete string string
  | CallCreateIP string string addr uint8_t
  | CallCreateVLAN string string string uint32_t
  | CallCreateNeighbor string string addr ether_addr

text \<open>
  \<open>objs\<close> is the object tree, \<open>gateway\<close> the default gateway of each family,
  \<open>fault\<close> the error (if any) the service answers a request with, \<open>calls\<close> the log of
  requests. \<open>ipName\<close>, \<open>neighName\<close> and \<open>vlanName\<close> are the names the service gives
  the objects it creates.
\<close>

record bus =
  objs :: "netobj list"
  gateway :: "family \<Rightarrow> addr option"
  fault :: "call \<Rightarrow> string option"
  calls :: "call list"
  ipName :: "addr \<Rightarrow> uint8_t \<Rightarrow> string"
  neighName :: "addr \<Rightarrow> ether_addr \<Rightarrow> string"
  vlanName :: "uint32_t \<Rightarrow> string"

text \<open>
  The collaborators of the handler that are not in \<^verbatim>\<open>transporthandler.cpp\<close>: the
  channel layer, the constants of the header and the byte order of the host.
\<close>

record env =
  getChannelName :: "uint8_t \<Rightarrow> string"
  isValidChannel :: "uint8_t \<Rightarrow> bool"
  convertCurrentChannelNum :: "uint8_t \<Rightarrow> uint8_t \<Rightarrow> uint8_t"
  PATH_ROOT :: string
  MAX_IPV6_STATIC_ADDRESSES :: uint8_t
  MAX_IPV6_DYNAMIC_ADDRESSES :: uint8_t
  littleEndian :: bool
  sourceTypeCode :: "IPv6Source \<Rightarrow> 4 word"
  statusDisabled :: uint8_t
  statusActive :: uint8_t

text \<open>The two process-wide maps of the handler, and the bus it talks to.\<close>

record ipmid =
  dbus :: bus
  setStatus :: "uint8_t \<rightharpoonup> SetStatus"
  lastDisabledVlan :: "uint8_t \<rightharpoonup> uint16_t"

subsection \<open>State and exceptions\<close>

type_synonym ('s, 'a) M = "'s \<Rightarrow> (exn + 'a) \<times> 's"

definition returnM :: "'a \<Rightarrow> ('s, 'a) M" where
  "returnM x s = (Inr x, s)"

definition throwM :: "exn \<Rightarrow> ('s, 'a) M" where
  "throwM e s = (Inl e, s)"

definition bindM :: "('s, 'a) M \<Rightarrow> ('a \<Rightarrow> ('s, 'b) M) \<Rightarrow> ('s, 'b) M" where
  "bindM m f s = (case m s of (Inl e, s') \<Rightarrow> (Inl e, s') | (Inr x, s') \<Rightarrow> f x s')"

definition liftBus :: "(bus, 'a) M \<Rightarrow> (ipmid, 'a) M" where
  "liftBus m st = (case m (dbus st) of (r, b') \<Rightarrow> (r, st\<lparr>dbus := b'\<rparr>))"

subsection \<open>Requests to the service\<close>

definition UnknownObject :: string where
  "UnknownObject = ''org.freedesktop.DBus.Error.UnknownObject''"

definition InternalFailureName :: string where
  "InternalFailureName = ''xyz.openbmc_project.Common.Error.InternalFailure''"

text \<open>A request is logged; the service may answer it with an error.\<close>

definition busCall :: "call \<Rightarrow> (bus, unit) M" where
  "busCall c b =
     (let b' = b\<lparr>calls := calls b @ [c]\<rparr> in
      case fault b c of
        Some name \<Rightarrow> (Inl (SdBusError name), b')
      | None \<Rightarrow> (Inr (), b'))"

text \<open>\<^verbatim>\<open>path.find(ifname) != path.npos\<close>.\<close>

fun contains :: "string \<Rightarrow> string \<Rightarrow> bool" where
  "contains [] needle = (needle = [])"
| "contains (c # cs) needle = (prefix needle (c # cs) \<or> contains cs needle)"

definition underPath :: "string \<Rightarrow> string \<Rightarrow> bool" where
  "underPath root p = strict_prefix (root @ ''/'') p"

definition serves :: "intf list \<Rightarrow> netobj \<Rightarrow> bool" where
  "serves intfs ob = (\<exists>i \<in> set intfs. i \<in> set (implements (okind ob)))"

definition deletable :: "netobj \<Rightarrow> bool" where
  "deletable ob = (DELETE_INTERFACE \<in> set (implements (okind ob)))"

text \<open>
  Modelled from the spec: object discovery under a root for a set of capability
  markers (spec section 6). The reply is a \<^verbatim>\<open>std::map\<close> keyed by path, so it is
  enumerated in the order of the paths.
\<close>

definition subTree :: "string \<Rightarrow> intf list \<Rightarrow> netobj list \<Rightarrow> netobj list" where
  "subTree root intfs os =
     sort_key opath (filter (\<lambda>ob. underPath root (opath ob) \<and> serves intfs ob) os)"

type_synonym ObjectTree = "(string \<times> (string \<times> intf list) list) list"

definition toTree :: "netobj list \<Rightarrow> ObjectTree" where
  "toTree os = map (\<lambda>ob. (opath ob, [(oservice ob, implements (okind ob))])) os"

definition GetSubTree :: "string \<Rightarrow> intf list \<Rightarrow> (bus, netobj list) M" where
  "GetSubTree root intfs =
     bindM (busCall (CallGetSubTree root intfs))
       (\<lambda>_ b. (Inr (subTree root intfs (objs b)), b))"

fun dhcpOf :: "objkind \<Rightarrow> DHCPConf option" where
  "dhcpOf (EthernetIf d) = Some d"
| "dhcpOf (VlanIf i d) = Some d"
| "dhcpOf (IpAddr a p g) = None"
| "dhcpOf (StaticNeighbor a m) = None"

fun withDhcp :: "DHCPConf \<Rightarrow> objkind \<Rightarrow> objkind" where
  "withDhcp d (EthernetIf d0) = EthernetIf d"
| "withDhcp d (VlanIf i d0) = VlanIf i d"
| "withDhcp d (IpAddr a p g) = IpAddr a p g"
| "withDhcp d (StaticNeighbor a m) = StaticNeighbor a m"

text \<open>
  Modelled from the spec: generic get and set of a named property on a named object
  (spec section 2, Property Bridge), here the combined DHCP mode of an interface.
\<close>

fun dhcpAt :: "string \<Rightarrow> netobj list \<Rightarrow> DHCPConf option" where
  "dhcpAt p [] = None"
| "dhcpAt p (ob # os) =
     (if opath ob = p then (case dhcpOf (okind ob) of Some d \<Rightarrow> Some d | None \<Rightarrow> dhcpAt p os)
      else dhcpAt p os)"

definition GetDHCPEnabled :: "string \<Rightarrow> string \<Rightarrow> (bus, DHCPConf) M" where
  "GetDHCPEnabled svc p =
     bindM (busCall (CallGetDHCPEnabled svc p))
       (\<lambda>_ b. case dhcpAt p (objs b) of
                 None \<Rightarrow> (Inl (SdBusError UnknownObject), b)
               | Some d \<Rightarrow> (Inr d, b))"

definition setDhcpAt :: "string \<Rightarrow> DHCPConf \<Rightarrow> netobj \<Rightarrow> netobj" where
  "setDhcpAt p d ob = (if opath ob = p then ob\<lparr>okind := withDhcp d (okind ob)\<rparr> else ob)"

definition SetDHCPEnabled :: "string \<Rightarrow> string \<Rightarrow> DHCPConf \<Rightarrow> (bus, unit) M" where
  "SetDHCPEnabled svc p d =
     bindM (busCall (CallSetDHCPEnabled svc p d))
       (\<lambda>_ b. if dhcpAt p (objs b) \<noteq> None
               then (Inr (), b\<lparr>objs := map (setDhcpAt p d) (objs b)\<rparr>)
               else (Inl (SdBusError UnknownObject), b))"

fun vlanIdOf :: "objkind \<Rightarrow> uint32_t option" where
  "vlanIdOf (VlanIf i d) = Some i"
| "vlanIdOf (EthernetIf d) = None"
| "vlanIdOf (IpAddr a p g) = None"
| "vlanIdOf (StaticNeighbor a m) = None"

fun vlanIdAt :: "string \<Rightarrow> netobj list \<Rightarrow> uint32_t option" where
  "vlanIdAt p [] = None"
| "vlanIdAt p (ob # os) =
     (if opath ob = p then (case vlanIdOf (okind ob) of Some i \<Rightarrow> Some i | None \<Rightarrow> vlanIdAt p os)
      else vlanIdAt p os)"

definition GetVlanId :: "string \<Rightarrow> string \<Rightarrow> (bus, uint32_t) M" where
  "GetVlanId svc p =
     bindM (busCall (CallGetVlanId svc p))
       (\<lambda>_ b. case vlanIdAt p (objs b) of
                 None \<Rightarrow> (Inl (SdBusError UnknownObject), b)
               | Some i \<Rightarrow> (Inr i, b))"

text \<open>
  Modelled from the spec: the object-deletion call. An object that is not there (or
  cannot be deleted) is answered with the unknown-object error.
\<close>

definition Delete :: "string \<Rightarrow> string \<Rightarrow> (bus, unit) M" where
  "Delete svc p =
     bindM (busCall (CallDelete svc p))
       (\<lambda>_ b. if list_ex (\<lambda>ob. opath ob = p \<and> deletable ob) (objs b)
               then (Inr (), b\<lparr>objs := filter (\<lambda>ob. \<not> (opath ob = p \<and> deletable ob)) (objs b)\<rparr>)
               else (Inl (SdBusError UnknownObject), b))"

text \<open>
  Modelled from the spec: the object-creation calls for IP address, VLAN and neighbor
  (spec section 6). A created address has Static origin and lives under the interface
  it was created on.
\<close>

fun familyDir :: "addr \<Rightarrow> string" where
  "familyDir (in_addr a) = ''/ipv4/''"
| "familyDir (in6_addr a) = ''/ipv6/''"

definition CreateIP :: "string \<Rightarrow> string \<Rightarrow> addr \<Rightarrow> uint8_t \<Rightarrow> (bus, unit) M" where
  "CreateIP svc p a n =
     bindM (busCall (CallCreateIP svc p a n))
       (\<lambda>_ b. if dhcpAt p (objs b) \<noteq> None
               then (Inr (), b\<lparr>objs := objs b @
                      [\<lparr>opath = p @ familyDir a @ ipName b a n, oservice = svc,
                        okind = IpAddr a n Static\<rparr>]\<rparr>)
               else (Inl (SdBusError UnknownObject), b))"

definition CreateNeighbor :: "string \<Rightarrow> string \<Rightarrow> addr \<Rightarrow> ether_addr \<Rightarrow> (bus, unit) M" where
  "CreateNeighbor svc p a m =
     bindM (busCall (CallCreateNeighbor svc p a m))
       (\<lambda>_ b. if dhcpAt p (objs b) \<noteq> None
               then (Inr (), b\<lparr>objs := objs b @
                      [\<lparr>opath = p @ ''/static_neighbor/'' @ neighName b a m, oservice = svc,
                        okind = StaticNeighbor a m\<rparr>]\<rparr>)
               else (Inl (SdBusError UnknownObject), b))"

definition vlanPath :: "bus \<Rightarrow> string \<Rightarrow> string \<Rightarrow> uint32_t \<Rightarrow> string" where
  "vlanPath b root name i = root @ ''/'' @ name @ ''_'' @ vlanName b i"

definition CreateVLAN :: "string \<Rightarrow> string \<Rightarrow> string \<Rightarrow> uint32_t \<Rightarrow> (bus, string) M" where
  "CreateVLAN svc root name i =
     bindM (busCall (CallCreateVLAN svc root name i))
       (\<lambda>_ b. (Inr (vlanPath b root name i),
               b\<lparr>objs := objs b @
                 [\<lparr>opath = vlanPath b root name i, oservice = svc, okind = VlanIf i none\<rparr>]\<rparr>))"

text \<open>Modelled from the spec: the gateway address is a plain property per family.\<close>

definition GetGateway :: "string \<Rightarrow> family \<Rightarrow> (bus, addr option) M" where
  "GetGateway svc fam =
     bindM (busCall (CallGetGateway svc fam)) (\<lambda>_ b. (Inr (gateway b fam), b))"

definition SetGateway :: "string \<Rightarrow> addr \<Rightarrow> (bus, unit) M" where
  "SetGateway svc a =
     bindM (busCall (CallSetGateway svc a))
       (\<lambda>_ b. (Inr (), b\<lparr>gateway := (gateway b)(familyOf a := Some a)\<rparr>))"

section \<open>Helpers of the header\<close>

text \<open>
  Modelled from the spec: the constants and helper templates of
  \<^verbatim>\<open>transporthandler.hpp\<close>, which is not among the sources. The VLAN id is a 12-bit
  field whose all-ones value is reserved, packed below 3 reserved bits and the enable
  bit (spec section 4.7); IPv4 prefixes default to 32 bits and IPv6 prefixes to 128.
\<close>

definition VLAN_VALUE_MASK :: uint16_t where
  "VLAN_VALUE_MASK = 0x0FFF"

definition VLAN_ENABLE_FLAG :: uint16_t where
  "VLAN_ENABLE_FLAG = 0x8000"

fun defaultPrefix :: "family \<Rightarrow> uint8_t" where
  "defaultPrefix AF_INET = 32"
| "defaultPrefix AF_INET6 = 128"

definition originsV4 :: "AddressOrigin list" where
  "originsV4 = [Static, DHCP]"

definition originsV6Static :: "AddressOrigin list" where
  "originsV6Static = [Static]"

definition originsV6Dynamic :: "AddressOrigin list" where
  "originsV6Dynamic = [DHCP, SLAAC]"

text \<open>
  Modelled from the spec: the lookup cache enumerates the objects with one capability
  under the logical interface once (spec section 2); an address is found by family,
  origin and position in the enumeration (spec sections 3 and 4.4).
\<close>

definition ObjectLookupCache :: "ChannelParams \<Rightarrow> intf \<Rightarrow> (bus, netobj list) M" where
  "ObjectLookupCache params i = GetSubTree (logicalPath params) [i]"

fun findIfAddr :: "family \<Rightarrow> nat \<Rightarrow> AddressOrigin list \<Rightarrow> netobj list \<Rightarrow> IfAddr option" where
  "findIfAddr fam idx origins [] = None"
| "findIfAddr fam idx origins (ob # ips) =
     (case okind ob of
        IpAddr a n g \<Rightarrow>
          if familyOf a \<noteq> fam then findIfAddr fam idx origins ips
          else if g \<notin> set origins then findIfAddr fam idx origins ips
          else if idx > 0 then findIfAddr fam (idx - 1) origins ips
          else Some \<lparr>path = opath ob, address = a, prefixLen = n, origin = g\<rparr>
      | _ \<Rightarrow> findIfAddr fam idx origins ips)"

definition getIfAddr ::
  "family \<Rightarrow> ChannelParams \<Rightarrow> nat \<Rightarrow> AddressOrigin list \<Rightarrow> (bus, IfAddr option) M" where
  "getIfAddr fam params idx origins =
     bindM (ObjectLookupCache params INTF_IP) (\<lambda>ips. returnM (findIfAddr fam idx origins ips))"

text \<open>
  Modelled from the spec: the gateway is a property per family, and its MAC is the
  static neighbor entry for the gateway address (spec section 4.5).
\<close>

definition getGatewayProperty :: "family \<Rightarrow> ChannelParams \<Rightarrow> (bus, addr option) M" where
  "getGatewayProperty fam params = GetGateway (service params) fam"

definition setGatewayProperty :: "ChannelParams \<Rightarrow> addr \<Rightarrow> (bus, unit) M" where
  "setGatewayProperty params a = SetGateway (service params) a"

fun findStaticNeighbor :: "addr \<Rightarrow> netobj list \<Rightarrow> IfNeigh option" where
  "findStaticNeighbor a [] = None"
| "findStaticNeighbor a (ob # neighbors) =
     (case okind ob of
        StaticNeighbor a' m \<Rightarrow>
          if a' = a then Some \<lparr>npath = opath ob, ip = a', mac = m\<rparr>
          else findStaticNeighbor a neighbors
      | _ \<Rightarrow> findStaticNeighbor a neighbors)"

definition createNeighbor :: "ChannelParams \<Rightarrow> addr \<Rightarrow> ether_addr \<Rightarrow> (bus, unit) M" where
  "createNeighbor params a m = CreateNeighbor (service params) (logicalPath params) a m"

section \<open>Channel resolution\<close>

fun resolveImpls ::
  "string \<Rightarrow> (string \<times> intf list) list \<Rightarrow> ChannelParams \<Rightarrow> ChannelParams" where
  "resolveImpls p [] params = params"
| "resolveImpls p ((svc, intfs) # impls) params =
     (let vlan = (INTF_VLAN \<in> set intfs);
          ethernet = (INTF_ETHERNET \<in> set intfs);
          params1 = (if service params = [] \<and> (vlan \<or> ethernet)
                     then params\<lparr>service := svc\<rparr> else params);
          params2 = (if ifPath params1 = [] \<and> \<not> vlan \<and> ethernet
                     then params1\<lparr>ifPath := p\<rparr> else params1);
          params3 = (if logicalPath params2 = [] \<and> vlan
                     then params2\<lparr>logicalPath := p\<rparr> else params2)
      in resolveImpls p impls params3)"

fun resolveObjs :: "string \<Rightarrow> ObjectTree \<Rightarrow> ChannelParams \<Rightarrow> ChannelParams" where
  "resolveObjs name [] params = params"
| "resolveObjs name ((p, impls) # tree) params =
     (if \<not> contains p name then resolveObjs name tree params
      else resolveObjs name tree (resolveImpls p impls params))"

definition emptyParams :: ChannelParams where
  "emptyParams = \<lparr>chId = 0, ifname = [], service = [], ifPath = [], logicalPath = []\<rparr>"

definition maybeGetChannelParams :: "env \<Rightarrow> uint8_t \<Rightarrow> (bus, ChannelParams option) M" where
  "maybeGetChannelParams e channel =
     (let name = getChannelName e channel in
      if name = [] then returnM None
      else
        bindM (GetSubTree (PATH_ROOT e) [INTF_VLAN, INTF_ETHERNET]) (\<lambda>os.
          let params = resolveObjs name (toTree os) emptyParams in
          if ifPath params = [] then returnM None
          else
            let params' = (if logicalPath params = []
                           then params\<lparr>logicalPath := ifPath params\<rparr> else params)
            in returnM (Some (params'\<lparr>chId := channel, ifname := name\<rparr>))))"

definition getChannelParams :: "env \<Rightarrow> uint8_t \<Rightarrow> (bus, ChannelParams) M" where
  "getChannelParams e channel =
     bindM (maybeGetChannelParams e channel) (\<lambda>params.
       case params of None \<Rightarrow> throwM InternalFailure | Some p \<Rightarrow> returnM p)"

text \<open>
  Modelled from the spec: \<^verbatim>\<open>channelCall\<close> resolves the channel and calls the function
  with the parameters; a channel that does not resolve is an internal error
  (spec section 4.1).
\<close>

definition channelCall :: "env \<Rightarrow> uint8_t \<Rightarrow> (ChannelParams \<Rightarrow> (bus, 'a) M) \<Rightarrow> (bus, 'a) M" where
  "channelCall e channel f =
     bindM (maybeGetChannelParams e channel) (\<lambda>params.
       case params of None \<Rightarrow> throwM InternalFailure | Some p \<Rightarrow> f p)"

section \<open>DHCP mode\<close>

definition getDHCPProperty :: "ChannelParams \<Rightarrow> (bus, DHCPConf) M" where
  "getDHCPProperty params = GetDHCPEnabled (service params) (logicalPath params)"

text \<open>\<open>nextDhcp\<close> starts as \<open>none\<close> and keeps that value where no branch assigns it.\<close>

definition nextDhcpV4 :: "DHCPConf \<Rightarrow> DHCPConf \<Rightarrow> DHCPConf" where
  "nextDhcpV4 currentDhcp requestedDhcp =
     (if currentDhcp = v6 \<and> requestedDhcp = v4 then both
      else if currentDhcp = none \<and> requestedDhcp = v4 then requestedDhcp
      else if requestedDhcp = none then
        (if currentDhcp = both then v6
         else if currentDhcp = v4 then none
         else none)
      else currentDhcp)"

definition setDHCPv4Property :: "ChannelParams \<Rightarrow> DHCPConf \<Rightarrow> (bus, unit) M" where
  "setDHCPv4Property params requestedDhcp =
     bindM (getDHCPProperty params) (\<lambda>currentDhcp.
       SetDHCPEnabled (service params) (logicalPath params)
         (nextDhcpV4 currentDhcp requestedDhcp))"

definition nextDhcpV6 :: "DHCPConf \<Rightarrow> DHCPConf \<Rightarrow> bool \<Rightarrow> DHCPConf" where
  "nextDhcpV6 currentDhcp requestedDhcp defaultMode =
     (if defaultMode then
        (if currentDhcp = v4 \<and> requestedDhcp = v6 then both
         else if currentDhcp = none \<and> requestedDhcp = v6 then requestedDhcp
         else if requestedDhcp = none then
           (if currentDhcp = both then v4
            else if currentDhcp = v6 then none
            else none)
         else currentDhcp)
      else requestedDhcp)"

definition setDHCPv6Property :: "ChannelParams \<Rightarrow> DHCPConf \<Rightarrow> bool \<Rightarrow> (bus, unit) M" where
  "setDHCPv6Property params requestedDhcp defaultMode =
     bindM (getDHCPProperty params) (\<lambda>currentDhcp.
       SetDHCPEnabled (service params) (logicalPath params)
         (nextDhcpV6 currentDhcp requestedDhcp defaultMode))"

section \<open>Addresses, neighbors and VLANs\<close>

text \<open>
  The \<^verbatim>\<open>catch\<close> clause swallows the two named errors and rethrows every other
  \<^verbatim>\<open>SdBusError\<close>; an exception of another type is not caught.
\<close>

definition deleteObjectIfExists :: "string \<Rightarrow> string \<Rightarrow> (bus, unit) M" where
  "deleteObjectIfExists svc p b =
     (if p = [] then (Inr (), b)
      else case Delete svc p b of
        (Inl (SdBusError name), b') \<Rightarrow>
          if name \<noteq> InternalFailureName \<and> name \<noteq> UnknownObject
          then (Inl (SdBusError name), b')
          else (Inr (), b')
      | (r, b') \<Rightarrow> (r, b'))"

definition createIfAddr :: "ChannelParams \<Rightarrow> addr \<Rightarrow> uint8_t \<Rightarrow> (bus, unit) M" where
  "createIfAddr params a n = CreateIP (service params) (logicalPath params) a n"

definition getIfAddr4 :: "ChannelParams \<Rightarrow> (bus, IfAddr option) M" where
  "getIfAddr4 params = getIfAddr AF_INET params 0 originsV4"

text \<open>\<^verbatim>\<open>opt->field\<close>: defined only when the optional holds a value.\<close>

definition arrow :: "'a option \<Rightarrow> ('s, 'a) M" where
  "arrow opt = (case opt of None \<Rightarrow> throwM EmptyOptionalAccess | Some x \<Rightarrow> returnM x)"

definition value_or :: "'a option \<Rightarrow> 'a \<Rightarrow> 'a" where
  "value_or opt d = (case opt of None \<Rightarrow> d | Some x \<Rightarrow> x)"

text \<open>
  The argument \<^verbatim>\<open>ifaddr->address\<close> of \<^verbatim>\<open>address.value_or\<close> is evaluated before the
  call, whether or not \<^verbatim>\<open>address\<close> holds a value.
\<close>

definition reconfigureIfAddr4 ::
  "ChannelParams \<Rightarrow> addr option \<Rightarrow> uint8_t option \<Rightarrow> (bus, unit) M" where
  "reconfigureIfAddr4 params newAddress newPrefix =
     bindM (getIfAddr4 params) (\<lambda>ifaddr.
       if ifaddr = None \<and> newAddress = None then throwM InternalFailure
       else
         bindM (case ifaddr of
                  None \<Rightarrow> returnM (defaultPrefix AF_INET)
                | Some a \<Rightarrow>
                    bindM (deleteObjectIfExists (service params) (path a))
                      (\<lambda>_. returnM (prefixLen a))) (\<lambda>fallbackPrefix.
         bindM (arrow ifaddr) (\<lambda>a.
           createIfAddr params (value_or newAddress (address a))
             (value_or newPrefix fallbackPrefix))))"

definition findGatewayNeighbor ::
  "family \<Rightarrow> ChannelParams \<Rightarrow> netobj list \<Rightarrow> (bus, IfNeigh option) M" where
  "findGatewayNeighbor fam params neighbors =
     bindM (getGatewayProperty fam params) (\<lambda>gw.
       case gw of
         None \<Rightarrow> returnM None
       | Some a \<Rightarrow> returnM (findStaticNeighbor a neighbors))"


definition deconfigureIfAddr6 :: "ChannelParams \<Rightarrow> uint8_t \<Rightarrow> (bus, unit) M" where
  "deconfigureIfAddr6 params idx =
     bindM (getIfAddr AF_INET6 params (unat idx) originsV6Static) (\<lambda>ifaddr.
       case ifaddr of
         None \<Rightarrow> returnM ()
       | Some a \<Rightarrow> deleteObjectIfExists (service params) (path a))"

definition reconfigureIfAddr6 ::
  "ChannelParams \<Rightarrow> uint8_t \<Rightarrow> addr \<Rightarrow> uint8_t \<Rightarrow> (bus, unit) M" where
  "reconfigureIfAddr6 params idx a n =
     bindM (deconfigureIfAddr6 params idx) (\<lambda>_. createIfAddr params a n)"

definition originToSourceType :: "AddressOrigin \<Rightarrow> ('s, IPv6Source) M" where
  "originToSourceType g =
     (case g of
        Static \<Rightarrow> returnM SourceStatic
      | DHCP \<Rightarrow> returnM SourceDHCP
      | SLAAC \<Rightarrow> returnM SourceSLAAC
      | LinkLocal \<Rightarrow> throwM InternalFailure)"

definition getVLANProperty :: "ChannelParams \<Rightarrow> (bus, uint16_t) M" where
  "getVLANProperty params =
     (if ifPath params = logicalPath params then returnM 0
      else
        bindM (GetVlanId (service params) (logicalPath params)) (\<lambda>vlan.
          if (vlan AND ucast VLAN_VALUE_MASK) \<noteq> vlan then throwM InternalFailure
          else returnM (ucast vlan)))"

fun deleteImpls :: "string \<Rightarrow> (string \<times> intf list) list \<Rightarrow> (bus, unit) M" where
  "deleteImpls p [] = returnM ()"
| "deleteImpls p ((svc, intfs) # impls) =
     bindM (deleteObjectIfExists svc p) (\<lambda>_. deleteImpls p impls)"

fun deconfigureObjs :: "ChannelParams \<Rightarrow> ObjectTree \<Rightarrow> (bus, ChannelParams) M" where
  "deconfigureObjs params [] = returnM params"
| "deconfigureObjs params ((p, impls) # tree) =
     (if \<not> contains p (ifname params) then deconfigureObjs params tree
      else
        bindM (deleteImpls p impls) (\<lambda>_.
          deconfigureObjs
            (if p = logicalPath params then params\<lparr>logicalPath := ifPath params\<rparr> else params)
            tree))"

definition deconfigureChannel :: "env \<Rightarrow> ChannelParams \<Rightarrow> (bus, ChannelParams) M" where
  "deconfigureChannel e params =
     bindM (GetSubTree (PATH_ROOT e) [DELETE_INTERFACE]) (\<lambda>os.
     bindM (deconfigureObjs params (toTree os)) (\<lambda>params'.
     bindM (setDHCPv6Property params' none False) (\<lambda>_. returnM params')))"

definition createVLAN :: "env \<Rightarrow> ChannelParams \<Rightarrow> uint16_t \<Rightarrow> (bus, ChannelParams) M" where
  "createVLAN e params vlan =
     (if vlan = 0 then returnM params
      else
        bindM (CreateVLAN (service params) (PATH_ROOT e) (ifname params) (ucast vlan))
          (\<lambda>newPath. returnM (params\<lparr>logicalPath := newPath\<rparr>)))"

function collectIfAddrs6 :: "nat \<Rightarrow> nat \<Rightarrow> netobj list \<Rightarrow> IfAddr list" where
  "collectIfAddrs6 maxAddrs i ips =
     (if i < maxAddrs then
        (case findIfAddr AF_INET6 i originsV6Static ips of
           None \<Rightarrow> []
         | Some a \<Rightarrow> a # collectIfAddrs6 maxAddrs (Suc i) ips)
      else [])"
  by pat_completeness auto
termination
  by (relation "measure (\<lambda>(maxAddrs, i, ips). maxAddrs - i)") auto

fun createIfAddrs :: "ChannelParams \<Rightarrow> IfAddr list \<Rightarrow> (bus, unit) M" where
  "createIfAddrs params [] = returnM ()"
| "createIfAddrs params (a # as) =
     bindM (createIfAddr params (address a) (prefixLen a)) (\<lambda>_. createIfAddrs params as)"

definition restoreNeighbor :: "ChannelParams \<Rightarrow> IfNeigh option \<Rightarrow> (bus, unit) M" where
  "restoreNeighbor params neighbor =
     (case neighbor of
        None \<Rightarrow> returnM ()
      | Some n \<Rightarrow> createNeighbor params (ip n) (mac n))"

definition reconfigureVLAN :: "env \<Rightarrow> ChannelParams \<Rightarrow> uint16_t \<Rightarrow> (bus, ChannelParams) M" where
  "reconfigureVLAN e params vlan =
     bindM (ObjectLookupCache params INTF_IP) (\<lambda>ips.
     bindM (returnM (findIfAddr AF_INET 0 originsV4 ips)) (\<lambda>ifaddr4.
     bindM (returnM (collectIfAddrs6 (unat (MAX_IPV6_STATIC_ADDRESSES e)) 0 ips)) (\<lambda>ifaddrs6.
     bindM (getDHCPProperty params) (\<lambda>dhcp.
     bindM (ObjectLookupCache params INTF_NEIGHBOR) (\<lambda>neighbors.
     bindM (findGatewayNeighbor AF_INET params neighbors) (\<lambda>neighbor4.
     bindM (findGatewayNeighbor AF_INET6 params neighbors) (\<lambda>neighbor6.
     bindM (deconfigureChannel e params) (\<lambda>params1.
     bindM (createVLAN e params1 vlan) (\<lambda>params2.
     bindM (setDHCPv6Property params2 dhcp False) (\<lambda>_.
     bindM (case ifaddr4 of
              None \<Rightarrow> returnM ()
            | Some a \<Rightarrow> createIfAddr params2 (address a) (prefixLen a)) (\<lambda>_.
     bindM (createIfAddrs params2 ifaddrs6) (\<lambda>_.
     bindM (restoreNeighbor params2 neighbor4) (\<lambda>_.
     bindM (restoreNeighbor params2 neighbor6) (\<lambda>_.
       returnM params2))))))))))))))"

section \<open>Netmask and prefix\<close>

definition bswap32 :: "uint32_t \<Rightarrow> uint32_t" where
  "bswap32 x = push_bit 24 (x AND 0xFF) OR push_bit 8 (x AND 0xFF00)
               OR (drop_bit 8 x AND 0xFF00) OR drop_bit 24 x"

definition htobe32 :: "bool \<Rightarrow> uint32_t \<Rightarrow> uint32_t" where
  "htobe32 le x = (if le then bswap32 x else x)"

definition be32toh :: "bool \<Rightarrow> uint32_t \<Rightarrow> uint32_t" where
  "be32toh le x = (if le then bswap32 x else x)"

text \<open>\<^verbatim>\<open>__builtin_ctz\<close>: the number of zero bits below the lowest set bit.\<close>

fun ctz_from :: "nat \<Rightarrow> uint32_t \<Rightarrow> nat" where
  "ctz_from 0 x = 0"
| "ctz_from (Suc n) x = (if bit x 0 then 0 else Suc (ctz_from n (drop_bit 1 x)))"

definition builtin_ctz :: "uint32_t \<Rightarrow> nat" where
  "builtin_ctz x = ctz_from 32 x"

text \<open>
  \<^verbatim>\<open>x << k\<close> on a \<^verbatim>\<open>uint32_t\<close>, with the count an \<^verbatim>\<open>int\<close> as after integer promotion:
  defined for counts from 0 to 31 only.
\<close>

definition shl32 :: "uint32_t \<Rightarrow> int \<Rightarrow> exn + uint32_t" where
  "shl32 x k = (if 0 \<le> k \<and> k < 32 then Inr (push_bit (nat k) x) else Inl UndefinedShift)"

text \<open>The count \<^verbatim>\<open>32 - prefix\<close> is computed on \<^verbatim>\<open>int\<close>.\<close>

definition prefixToNetmask :: "bool \<Rightarrow> uint8_t \<Rightarrow> exn + uint32_t" where
  "prefixToNetmask le n =
     (if n > 32 then Inl InternalFailure
      else if n = 0 then Inr 0
      else (case shl32 (NOT 0) (32 - uint n) of
              Inl x \<Rightarrow> Inl x
            | Inr v \<Rightarrow> Inr (htobe32 le v)))"

definition netmaskToPrefix :: "bool \<Rightarrow> uint32_t \<Rightarrow> exn + uint8_t" where
  "netmaskToPrefix le netmask =
     (let x = be32toh le netmask in
      if (NOT x AND (NOT x + 1)) \<noteq> 0 then Inl InternalFailure
      else Inr (if x \<noteq> 0 then of_nat (unat (defaultPrefix AF_INET) - builtin_ctz x) else 0))"

text \<open>
  A netmask in host order is a left-aligned run of 1-bits when it is the top \<open>n\<close> bits
  for some \<open>n\<close> from 0 to 32.
\<close>

definition leftAlignedRun :: "uint32_t \<Rightarrow> bool" where
  "leftAlignedRun x = (\<exists>k \<in> set [0..<33]. x = push_bit k (NOT 0))"

section \<open>Request and response payloads\<close>

text \<open>
  Modelled from the spec: the binary codec of \<^verbatim>\<open>message::Payload\<close>, whose header is
  not among the sources. Fields are taken from the byte stream lowest bit first, an
  integer of several bytes has its low byte first, and a decode must consume the
  payload exactly (spec section 4.7). \<open>None\<close> is a failed or incomplete decode.
\<close>

definition unpackSetStatus :: "uint8_t list \<Rightarrow> (2 word \<times> 6 word) option" where
  "unpackSetStatus req =
     (case req of [b] \<Rightarrow> Some (ucast b, ucast (drop_bit 2 b)) | _ \<Rightarrow> None)"

definition unpackArray :: "nat \<Rightarrow> uint8_t list \<Rightarrow> uint8_t list option" where
  "unpackArray n req = (if length req = n then Some req else None)"

definition unpackVlan :: "uint8_t list \<Rightarrow> (12 word \<times> 3 word \<times> bool) option" where
  "unpackVlan req =
     (case req of
        [b0, b1] \<Rightarrow>
          (let w = (ucast b0 OR push_bit 8 (ucast b1) :: uint16_t)
           in Some (ucast w, ucast (drop_bit 12 w), bit w 15))
      | _ \<Rightarrow> None)"

definition unpackIPv6Static ::
  "uint8_t list \<Rightarrow> (uint8_t \<times> 7 word \<times> bool \<times> uint8_t list \<times> uint8_t \<times> uint8_t) option" where
  "unpackIPv6Static req =
     (if length req = 20
      then Some (req ! 0, ucast (req ! 1), bit (req ! 1) 7, take 16 (drop 2 req),
                 req ! 18, req ! 19)
      else None)"

definition packU16 :: "uint16_t \<Rightarrow> uint8_t list" where
  "packU16 v = [ucast v, ucast (drop_bit 8 v)]"

text \<open>
  \<^verbatim>\<open>copyInto\<close> and \<^verbatim>\<open>dataRef\<close> move the bytes of an address to and from memory; what
  \<^verbatim>\<open>s_addr\<close> reads depends on the byte order of the host.
\<close>

definition copyInto4 :: "bool \<Rightarrow> uint8_t list \<Rightarrow> uint32_t" where
  "copyInto4 le bytes = (if le then word_rcat (rev bytes) else word_rcat bytes)"

definition dataRef4 :: "bool \<Rightarrow> uint32_t \<Rightarrow> uint8_t list" where
  "dataRef4 le x =
     (let be = [ucast (drop_bit 24 x), ucast (drop_bit 16 x), ucast (drop_bit 8 x), ucast x]
      in if le then rev be else be)"

fun dataRef :: "bool \<Rightarrow> addr \<Rightarrow> uint8_t list" where
  "dataRef le (in_addr x) = dataRef4 le x"
| "dataRef le (in6_addr bytes) = bytes"

section \<open>Set LAN Configuration Parameters\<close>

text \<open>
  Modelled from the spec: the numeric values of the \<open>SetStatus\<close> enumeration, in the
  order the spec lists it (spec section 3); the header that declares it is not among the
  sources. The value 3 names no enumerator.
\<close>

definition toSetStatus :: "2 word \<Rightarrow> SetStatus option" where
  "toSetStatus flag =
     (if flag = 0 then Some Complete
      else if flag = 1 then Some InProgress
      else if flag = 2 then Some Commit
      else None)"

definition fromSetStatus :: "SetStatus \<Rightarrow> uint8_t" where
  "fromSetStatus s = (case s of Complete \<Rightarrow> 0 | InProgress \<Rightarrow> 1 | Commit \<Rightarrow> 2)"

text \<open>\<^verbatim>\<open>getSetStatus\<close> returns a reference to the entry, which it creates when missing.\<close>

definition getSetStatus :: "uint8_t \<Rightarrow> ipmid \<Rightarrow> SetStatus \<times> ipmid" where
  "getSetStatus channel st =
     (case setStatus st channel of
        Some s \<Rightarrow> (s, st)
      | None \<Rightarrow> (Complete, st\<lparr>setStatus := (setStatus st)(channel \<mapsto> Complete)\<rparr>))"

definition assignSetStatus :: "uint8_t \<Rightarrow> SetStatus \<Rightarrow> ipmid \<Rightarrow> ipmid" where
  "assignSetStatus channel s st = st\<lparr>setStatus := (setStatus st)(channel \<mapsto> s)\<rparr>"

definition setLanSetStatus :: "uint8_t \<Rightarrow> uint8_t list \<Rightarrow> (ipmid, cc) M" where
  "setLanSetStatus channel req st =
     (case unpackSetStatus req of
        None \<Rightarrow> (Inr ccReqDataLenInvalid, st)
      | Some (flag, rsvd) \<Rightarrow>
          if rsvd \<noteq> 0 then (Inr ccInvalidFieldRequest, st)
          else
            (case toSetStatus flag of
               Some Complete \<Rightarrow>
                 (case getSetStatus channel st of
                    (stored, st') \<Rightarrow> (Inr ccSuccess, assignSetStatus channel Complete st'))
             | Some InProgress \<Rightarrow>
                 (case getSetStatus channel st of
                    (storedStatus, st') \<Rightarrow>
                      if storedStatus = InProgress then (Inr ccParamSetLocked, st')
                      else (Inr ccSuccess, assignSetStatus channel InProgress st'))
             | Some Commit \<Rightarrow>
                 (case getSetStatus channel st of
                    (stored, st') \<Rightarrow>
                      if stored \<noteq> InProgress then (Inr ccInvalidFieldRequest, st')
                      else (Inr ccSuccess, st'))
             | None \<Rightarrow> (Inr ccParamNotSupported, st)))"

definition setLanIP :: "env \<Rightarrow> uint8_t \<Rightarrow> uint8_t list \<Rightarrow> (ipmid, cc) M" where
  "setLanIP e channel req =
     bindM (liftBus (channelCall e channel getDHCPProperty)) (\<lambda>dhcp.
       if dhcp = v4 \<or> dhcp = both then returnM ccCommandNotAvailable
       else
         (case unpackArray 4 req of
            None \<Rightarrow> returnM ccReqDataLenInvalid
          | Some bytes \<Rightarrow>
              bindM (liftBus (channelCall e channel (\<lambda>params.
                       reconfigureIfAddr4 params
                         (Some (in_addr (copyInto4 (littleEndian e) bytes))) None)))
                (\<lambda>_. returnM ccSuccess)))"

text \<open>\<^verbatim>\<open>netmaskToPrefix(netmask)\<close> is an argument of the call, so it is evaluated first.\<close>

definition setLanSubnetMask :: "env \<Rightarrow> uint8_t \<Rightarrow> uint8_t list \<Rightarrow> (ipmid, cc) M" where
  "setLanSubnetMask e channel req =
     bindM (liftBus (channelCall e channel getDHCPProperty)) (\<lambda>dhcp.
       if dhcp = v4 \<or> dhcp = both then returnM ccCommandNotAvailable
       else
         (case unpackArray 4 req of
            None \<Rightarrow> returnM ccReqDataLenInvalid
          | Some bytes \<Rightarrow>
              (case netmaskToPrefix (littleEndian e) (copyInto4 (littleEndian e) bytes) of
                 Inl x \<Rightarrow> throwM x
               | Inr n \<Rightarrow>
                   bindM (liftBus (channelCall e channel (\<lambda>params.
                            reconfigureIfAddr4 params None (Some n))))
                     (\<lambda>_. returnM ccSuccess))))"

definition setLanGateway1 :: "env \<Rightarrow> uint8_t \<Rightarrow> uint8_t list \<Rightarrow> (ipmid, cc) M" where
  "setLanGateway1 e channel req =
     bindM (liftBus (channelCall e channel getDHCPProperty)) (\<lambda>dhcp.
       if dhcp = v4 \<or> dhcp = both then returnM ccCommandNotAvailable
       else
         (case unpackArray 4 req of
            None \<Rightarrow> returnM ccReqDataLenInvalid
          | Some bytes \<Rightarrow>
              bindM (liftBus (channelCall e channel (\<lambda>params.
                       setGatewayProperty params
                         (in_addr (copyInto4 (littleEndian e) bytes)))))
                (\<lambda>_. returnM ccSuccess)))"

definition setLanVLANId :: "env \<Rightarrow> uint8_t \<Rightarrow> uint8_t list \<Rightarrow> (ipmid, cc) M" where
  "setLanVLANId e channel req st =
     (case unpackVlan req of
        None \<Rightarrow> (Inr ccReqDataLenInvalid, st)
      | Some (vlanData, reserved, vlanEnable) \<Rightarrow>
          if reserved \<noteq> 0 then (Inr ccInvalidFieldRequest, st)
          else
            (let vlan = (ucast vlanData :: uint16_t) in
             if \<not> vlanEnable then
               bindM (liftBus (channelCall e channel (\<lambda>params. reconfigureVLAN e params 0)))
                 (\<lambda>_. returnM ccSuccess)
                 (st\<lparr>lastDisabledVlan := (lastDisabledVlan st)(channel \<mapsto> vlan)\<rparr>)
             else if vlan = 0 \<or> vlan = VLAN_VALUE_MASK then (Inr ccInvalidFieldRequest, st)
             else
               bindM (liftBus (channelCall e channel (\<lambda>params. reconfigureVLAN e params vlan)))
                 (\<lambda>_. returnM ccSuccess) st))"

definition setLanIPv6StaticAddresses :: "env \<Rightarrow> uint8_t \<Rightarrow> uint8_t list \<Rightarrow> (ipmid, cc) M" where
  "setLanIPv6StaticAddresses e channel req =
     (case unpackIPv6Static req of
        None \<Rightarrow> returnM ccReqDataLenInvalid
      | Some (selector, rsvd, enabled, ipbytes, n, status) \<Rightarrow>
          if rsvd \<noteq> 0 then returnM ccInvalidFieldRequest
          else if enabled then
            bindM (liftBus (channelCall e channel (\<lambda>params.
                     reconfigureIfAddr6 params selector (in6_addr ipbytes) n)))
              (\<lambda>_. returnM ccSuccess)
          else
            bindM (liftBus (channelCall e channel (\<lambda>params. deconfigureIfAddr6 params selector)))
              (\<lambda>_. returnM ccSuccess))"

definition setLan ::
  "env \<Rightarrow> uint8_t \<Rightarrow> 4 word \<Rightarrow> 4 word \<Rightarrow> LanParam \<Rightarrow> uint8_t list \<Rightarrow> (ipmid, cc) M" where
  "setLan e ctxChannel channelBits reserved1 parameter req =
     (let channel = convertCurrentChannelNum e (ucast channelBits) ctxChannel in
      if reserved1 \<noteq> 0 \<or> \<not> isValidChannel e channel then returnM ccInvalidFieldRequest
      else
        (case parameter of
           SetStatus \<Rightarrow> setLanSetStatus channel req
         | AuthSupport \<Rightarrow> returnM ccParamReadOnly
         | AuthEnables \<Rightarrow> returnM ccParamReadOnly
         | IP \<Rightarrow> setLanIP e channel req
         | SubnetMask \<Rightarrow> setLanSubnetMask e channel req
         | Gateway1 \<Rightarrow> setLanGateway1 e channel req
         | VLANId \<Rightarrow> setLanVLANId e channel req
         | IPv6StaticAddresses \<Rightarrow> setLanIPv6StaticAddresses e channel req
         | IPv6DynamicAddresses \<Rightarrow> returnM ccParamReadOnly))"

section \<open>Get LAN Configuration Parameters\<close>

definition current_revision :: uint8_t where
  "current_revision = 0x11"

definition getLanIPv6Address ::
  "env \<Rightarrow> uint8_t list \<Rightarrow> uint8_t \<Rightarrow> uint8_t \<Rightarrow> AddressOrigin list
   \<Rightarrow> (ipmid, uint8_t list) M" where
  "getLanIPv6Address e ret channel selector origins =
     bindM (liftBus (channelCall e channel (\<lambda>params.
              getIfAddr AF_INET6 params (unat selector) origins))) (\<lambda>ifaddr.
     bindM (case ifaddr of
              None \<Rightarrow>
                returnM (SourceStatic, False, in6_addr (replicate 16 0),
                         defaultPrefix AF_INET6, statusDisabled e)
            | Some a \<Rightarrow>
                bindM (originToSourceType (origin a)) (\<lambda>source.
                  returnM (source, True, address a, prefixLen a, statusActive e)))
       (\<lambda>(source, enabled, a, n, status).
          returnM (ret @ [selector]
                   @ [ucast (sourceTypeCode e source) OR (if enabled then 0x80 else 0)]
                   @ dataRef (littleEndian e) a @ [n] @ [status])))"

text \<open>
  \<^verbatim>\<open>lastDisabledVlan[channel]\<close> creates the entry, with value 0, when it is missing.
\<close>

definition getLanVLANId :: "env \<Rightarrow> uint8_t list \<Rightarrow> uint8_t \<Rightarrow> (ipmid, cc \<times> uint8_t list) M" where
  "getLanVLANId e ret channel =
     bindM (liftBus (channelCall e channel getVLANProperty)) (\<lambda>vlan st.
       if vlan \<noteq> 0 then (Inr (ccSuccess, ret @ packU16 (vlan OR VLAN_ENABLE_FLAG)), st)
       else
         (case lastDisabledVlan st channel of
            Some v \<Rightarrow> (Inr (ccSuccess, ret @ packU16 v), st)
          | None \<Rightarrow>
              (Inr (ccSuccess, ret @ packU16 0),
               st\<lparr>lastDisabledVlan := (lastDisabledVlan st)(channel \<mapsto> 0)\<rparr>)))"

text \<open>
  The cipher list that \<^verbatim>\<open>getLan\<close> caches on its first call is read from a file; it
  touches neither the bus nor the two maps and is left out.
\<close>

definition getLan ::
  "env \<Rightarrow> uint8_t \<Rightarrow> 4 word \<Rightarrow> 3 word \<Rightarrow> bool \<Rightarrow> LanParam \<Rightarrow> uint8_t \<Rightarrow> uint8_t
   \<Rightarrow> (ipmid, cc \<times> uint8_t list) M" where
  "getLan e ctxChannel channelBits reserved revOnly parameter selector block =
     (let ret = [current_revision] in
      if revOnly then returnM (ccSuccess, ret)
      else
        (let channel = convertCurrentChannelNum e (ucast channelBits) ctxChannel in
         if reserved \<noteq> 0 \<or> \<not> isValidChannel e channel
         then returnM (ccInvalidFieldRequest, [])
         else
           (case parameter of
              SetStatus \<Rightarrow>
                (\<lambda>st. (Inr (ccSuccess,
                              ret @ [fromSetStatus
                                       (case setStatus st channel of
                                          Some s \<Rightarrow> s | None \<Rightarrow> Complete)]), st))
            | AuthSupport \<Rightarrow> returnM (ccSuccess, ret @ [0])
            | AuthEnables \<Rightarrow> returnM (ccSuccess, ret @ [0, 0, 0, 0, 0])
            | IP \<Rightarrow>
                bindM (liftBus (channelCall e channel getIfAddr4)) (\<lambda>ifaddr.
                  returnM (ccSuccess,
                           ret @ dataRef (littleEndian e)
                                   (case ifaddr of None \<Rightarrow> in_addr 0 | Some a \<Rightarrow> address a)))
            | SubnetMask \<Rightarrow>
                bindM (liftBus (channelCall e channel getIfAddr4)) (\<lambda>ifaddr.
                  case prefixToNetmask (littleEndian e)
                         (case ifaddr of
                            None \<Rightarrow> defaultPrefix AF_INET | Some a \<Rightarrow> prefixLen a) of
                    Inl x \<Rightarrow> throwM x
                  | Inr netmask \<Rightarrow>
                      returnM (ccSuccess, ret @ dataRef4 (littleEndian e) netmask))
            | Gateway1 \<Rightarrow>
                bindM (liftBus (channelCall e channel (getGatewayProperty AF_INET))) (\<lambda>gw.
                  returnM (ccSuccess,
                           ret @ dataRef (littleEndian e) (value_or gw (in_addr 0))))
            | VLANId \<Rightarrow> getLanVLANId e ret channel
            | IPv6StaticAddresses \<Rightarrow>
                if selector \<ge> MAX_IPV6_STATIC_ADDRESSES e then returnM (ccParmOutOfRange, [])
                else
                  bindM (getLanIPv6Address e ret channel selector originsV6Static)
                    (\<lambda>ret'. returnM (ccSuccess, ret'))
            | IPv6DynamicAddresses \<Rightarrow>
                if selector \<ge> MAX_IPV6_DYNAMIC_ADDRESSES e then returnM (ccParmOutOfRange, [])
                else
                  bindM (getLanIPv6Address e ret channel selector originsV6Dynamic)
                    (\<lambda>ret'. returnM (ccSuccess, ret')))))"

section \<open>The service across a VLAN change\<close>

text \<open>A service that answers every request: no call is given an error reply.\<close>

definition nofault :: "bus \<Rightarrow> bool" where
  "nofault b \<longleftrightarrow> fault b = (\<lambda>c. None)"

text \<open>
  \<open>evolves b os b'\<close>: the bus \<open>b'\<close> is \<open>b\<close> with the object list \<open>os\<close> and some
  longer log of requests; nothing else of the service has changed.
\<close>

definition evolves :: "bus \<Rightarrow> netobj list \<Rightarrow> bus \<Rightarrow> bool" where
  "evolves b os b' \<longleftrightarrow> (\<exists>cs. b' = b\<lparr>objs := os, calls := cs\<rparr>)"

text \<open>
  The objects that \<open>deconfigureChannel\<close> leaves in place: all but the deletable objects
  below the root whose path contains the interface name.
\<close>

definition survives :: "string \<Rightarrow> string \<Rightarrow> netobj \<Rightarrow> bool" where
  "survives root name ob \<longleftrightarrow>
     \<not> (deletable ob \<and> underPath root (opath ob) \<and> contains (opath ob) name)"

text \<open>
  The objects that the creation calls of the service add for an address, a neighbor
  and a VLAN.
\<close>

definition ipObj :: "bus \<Rightarrow> string \<Rightarrow> string \<Rightarrow> IfAddr \<Rightarrow> netobj" where
  "ipObj b svc l a =
     \<lparr>opath = l @ familyDir (address a) @ ipName b (address a) (prefixLen a), oservice = svc,
      okind = IpAddr (address a) (prefixLen a) Static\<rparr>"

definition neighObj :: "bus \<Rightarrow> string \<Rightarrow> string \<Rightarrow> IfNeigh \<Rightarrow> netobj" where
  "neighObj b svc l n =
     \<lparr>opath = l @ ''/static_neighbor/'' @ neighName b (ip n) (mac n), oservice = svc,
      okind = StaticNeighbor (ip n) (mac n)\<rparr>"

definition vlanObj :: "bus \<Rightarrow> string \<Rightarrow> string \<Rightarrow> string \<Rightarrow> uint32_t \<Rightarrow> netobj" where
  "vlanObj b svc root name i =
     \<lparr>opath = vlanPath b root name i, oservice = svc, okind = VlanIf i none\<rparr>"

fun optList :: "'a option \<Rightarrow> 'a list" where
  "optList None = []"
| "optList (Some x) = [x]"

text \<open>
  What channel resolution guarantees of its result: the physical path is an Ethernet
  interface below the root, and the logical path is either the physical path or a VLAN
  interface below the root; both contain the interface name.
\<close>

definition resolvedOn :: "env \<Rightarrow> bus \<Rightarrow> ChannelParams \<Rightarrow> bool" where
  "resolvedOn e b params \<longleftrightarrow>
     ifname params \<noteq> []
     \<and> contains (ifPath params) (ifname params)
     \<and> underPath (PATH_ROOT e) (ifPath params)
     \<and> (\<exists>ob \<in> set (objs b). opath ob = ifPath params \<and> (\<exists>d. okind ob = EthernetIf d))
     \<and> (logicalPath params = ifPath params
        \<or> contains (logicalPath params) (ifname params)
          \<and> underPath (PATH_ROOT e) (logicalPath params)
          \<and> (\<exists>ob \<in> set (objs b). opath ob = logicalPath params
                \<and> (\<exists>i d. okind ob = VlanIf i d)))"

text \<open>
  What \<open>reconfigureVLAN\<close> saves before it deconfigures the channel: the gateway
  neighbors, the IPv4 address and the static IPv6 addresses, and the DHCP mode of the
  logical object.
\<close>

definition snapNeighbor :: "bus \<Rightarrow> ChannelParams \<Rightarrow> family \<Rightarrow> IfNeigh option" where
  "snapNeighbor b params fam =
     (case gateway b fam of
        None \<Rightarrow> None
      | Some a \<Rightarrow> findStaticNeighbor a (subTree (logicalPath params) [INTF_NEIGHBOR] (objs b)))"

definition snapAddrs :: "env \<Rightarrow> bus \<Rightarrow> ChannelParams \<Rightarrow> IfAddr list" where
  "snapAddrs e b params =
     (let ips = subTree (logicalPath params) [INTF_IP] (objs b)
      in optList (findIfAddr AF_INET 0 originsV4 ips)
         @ collectIfAddrs6 (unat (MAX_IPV6_STATIC_ADDRESSES e)) 0 ips)"

definition snapDhcp :: "bus \<Rightarrow> ChannelParams \<Rightarrow> DHCPConf" where
  "snapDhcp b params =
     (case dhcpAt (logicalPath params) (objs b) of Some d \<Rightarrow> d | None \<Rightarrow> none)"

text \<open>
  The logical path after \<open>reconfigureVLAN\<close>, and the object list it leaves behind when
  no request fails: the survivors with DHCP off on the physical interface, the new VLAN
  interface, the saved DHCP mode on the new logical object, and the saved addresses and
  neighbors created again below it.
\<close>

definition newLogicalPath :: "env \<Rightarrow> bus \<Rightarrow> ChannelParams \<Rightarrow> uint16_t \<Rightarrow> string" where
  "newLogicalPath e b params vlan =
     (if vlan = 0 then ifPath params
      else vlanPath b (PATH_ROOT e) (ifname params) (ucast vlan))"

definition swapped :: "env \<Rightarrow> bus \<Rightarrow> ChannelParams \<Rightarrow> uint16_t \<Rightarrow> netobj list" where
  "swapped e b params vlan =
     (let l2 = newLogicalPath e b params vlan;
          base = map (setDhcpAt (ifPath params) none)
                   (filter (survives (PATH_ROOT e) (ifname params)) (objs b));
          withVlan = base @ (if vlan = 0 then []
                             else [vlanObj b (service params) (PATH_ROOT e) (ifname params)
                                     (ucast vlan)])
      in map (setDhcpAt l2 (snapDhcp b params)) withVlan
         @ map (ipObj b (service params) l2) (snapAddrs e b params)
         @ map (neighObj b (service params) l2)
             (optList (snapNeighbor b params AF_INET) @ optList (snapNeighbor b params AF_INET6)))"

text \<open>
  Physical and VLAN interfaces, the first path that an enumeration offers for a
  predicate, and the enumeration that channel resolution asks for.
\<close>

definition isEth :: "netobj \<Rightarrow> bool" where
  "isEth ob \<longleftrightarrow> (\<exists>d. okind ob = EthernetIf d)"

definition isVlan :: "netobj \<Rightarrow> bool" where
  "isVlan ob \<longleftrightarrow> (\<exists>i d. okind ob = VlanIf i d)"

definition firstPath :: "(netobj \<Rightarrow> bool) \<Rightarrow> netobj list \<Rightarrow> string" where
  "firstPath Q L = (case filter Q L of [] \<Rightarrow> [] | ob # rest \<Rightarrow> opath ob)"

definition ifaces :: "env \<Rightarrow> netobj list \<Rightarrow> netobj list" where
  "ifaces e os = subTree (PATH_ROOT e) [INTF_VLAN, INTF_ETHERNET] os"

text \<open>The three parts of the object list after the swap.\<close>

definition swapBase :: "env \<Rightarrow> bus \<Rightarrow> ChannelParams \<Rightarrow> netobj list" where
  "swapBase e b params =
     map (setDhcpAt (ifPath params) none)
       (filter (survives (PATH_ROOT e) (ifname params)) (objs b))"

definition swapVlan :: "env \<Rightarrow> bus \<Rightarrow> ChannelParams \<Rightarrow> uint16_t \<Rightarrow> netobj list" where
  "swapVlan e b params vlan =
     (if vlan = 0 then []
      else [vlanObj b (service params) (PATH_ROOT e) (ifname params) (ucast vlan)])"

definition swapRestored :: "env \<Rightarrow> bus \<Rightarrow> ChannelParams \<Rightarrow> uint16_t \<Rightarrow> netobj list" where
  "swapRestored e b params vlan =
     map (ipObj b (service params) (newLogicalPath e b params vlan)) (snapAddrs e b params)
     @ map (neighObj b (service params) (newLogicalPath e b params vlan))
         (optList (snapNeighbor b params AF_INET) @ optList (snapNeighbor b params AF_INET6))"



section \<open>An example configuration\<close>

text \<open>
  Channel 1 is the interface \<open>eth0\<close> of the service \<open>nw\<close>, under the root
  \<open>/net\<close>, on a little-endian host with 15 static IPv6 slots. \<open>exBus d os\<close> holds
  the physical interface with DHCP mode \<open>d\<close> and the objects \<open>os\<close>.
\<close>

definition exEnv :: env where
  "exEnv = \<lparr>getChannelName = (\<lambda>c. if c = 1 then ''eth0'' else []),
             isValidChannel = (\<lambda>c. c = 1),
             convertCurrentChannelNum = (\<lambda>c ctx. if c = 14 then ctx else c),
             PATH_ROOT = ''/net'',
             MAX_IPV6_STATIC_ADDRESSES = 15,
             MAX_IPV6_DYNAMIC_ADDRESSES = 15,
             littleEndian = True,
             sourceTypeCode = (\<lambda>s. case s of SourceStatic \<Rightarrow> 0 | SourceSLAAC \<Rightarrow> 1
                                      | SourceDHCP \<Rightarrow> 2),
             statusDisabled = 1,
             statusActive = 0\<rparr>"

definition exParams :: ChannelParams where
  "exParams = \<lparr>chId = 1, ifname = ''eth0'', service = ''nw'', ifPath = ''/net/eth0'',
                logicalPath = ''/net/eth0''\<rparr>"

definition exBus :: "DHCPConf \<Rightarrow> netobj list \<Rightarrow> bus" where
  "exBus d os =
     \<lparr>objs = \<lparr>opath = ''/net/eth0'', oservice = ''nw'', okind = EthernetIf d\<rparr> # os,
      gateway = (\<lambda>f. if f = AF_INET then Some (in_addr 9) else Some (in6_addr [9])),
      fault = (\<lambda>c. None),
      calls = [],
      ipName = (\<lambda>a n. case a of in_addr w \<Rightarrow> ''a'' | in6_addr bs \<Rightarrow> (if bs = [1] then ''b'' else ''c'')),
      neighName = (\<lambda>a m. case a of in_addr w \<Rightarrow> ''m'' | in6_addr bs \<Rightarrow> ''n''),
      vlanName = (\<lambda>i. ''v'')\<rparr>"

definition exState :: "bus \<Rightarrow> ipmid" where
  "exState b = \<lparr>dbus = b, setStatus = Map.empty, lastDisabledVlan = Map.empty\<rparr>"


section \<open>Netmask and prefix: proofs\<close>

lemma byte_mask_low: "(0xFF :: 32 word) = mask 8" by (simp add: mask_eq_exp_minus_1)
lemma byte_mask_high: "(0xFF00 :: 32 word) = push_bit 8 (mask 8)" by (simp add: mask_eq_exp_minus_1 push_bit_eq_mult)

lemma bit_bswap32:
  "bit (bswap32 x) n \<longleftrightarrow>
     (if n < 8 then bit x (n + 24)
      else if n < 16 then bit x (n + 8)
      else if n < 24 then bit x (n - 8)
      else if n < 32 then bit x (n - 24) else False)"
  unfolding bswap32_def byte_mask_low byte_mask_high
  by (simp add: bit_simps) (auto simp add: add.commute dest: bit_imp_le_length)

lemma bswap32_bswap32: "bswap32 (bswap32 x) = x"
proof (rule bit_word_eqI)
  fix n assume "n < LENGTH(32)"
  then consider "n < 8" | "8 \<le> n" "n < 16" | "16 \<le> n" "n < 24" | "24 \<le> n" "n < 32"
    by fastforce
  then show "bit (bswap32 (bswap32 x)) n = bit x n"
  proof cases
    case 1 then show ?thesis by (auto simp add: bit_bswap32)
  next
    case 2 then show ?thesis by (auto simp add: bit_bswap32)
  next
    case 3 then show ?thesis by (auto simp add: bit_bswap32)
  next
    case 4 then show ?thesis by (auto simp add: bit_bswap32)
  qed
qed

lemma be32toh_htobe32: "be32toh le (htobe32 le x) = x"
  by (simp add: be32toh_def htobe32_def bswap32_bswap32)

lemma and_even_succ: "(2 * m :: nat) AND (2 * m + 1) = 2 * m"
  by (simp add: and_nat_rec [of "2 * m" "Suc (2 * m)"])

lemma and_odd_succ: "(2 * m + 1 :: nat) AND (2 * m + 1 + 1) = 2 * (m AND (m + 1))"
  by (simp add: and_nat_rec [of "Suc (2 * m)" "Suc (Suc (2 * m))"])

lemma and_succ_nat: "(n::nat) AND (n + 1) = 0 \<Longrightarrow> \<exists>k. n = mask k"
proof (induction n rule: less_induct)
  case (less n)
  show ?case
  proof (cases "even n")
    case True
    then obtain m where m: "n = 2 * m" by (auto elim: evenE)
    have "n AND (n + 1) = n" unfolding m by (rule and_even_succ)
    with less.prems have "n = 0" by simp
    then have "n = mask 0" by simp
    then show ?thesis by blast
  next
    case False
    then obtain m where m: "n = 2 * m + 1" by (auto elim: oddE)
    have "n AND (n + 1) = 2 * (m AND (m + 1))" unfolding m by (rule and_odd_succ)
    with less.prems have "m AND (m + 1) = 0" by simp
    moreover have "m < n" using m by simp
    ultimately obtain k where "m = mask k" using less.IH by blast
    moreover have "(1::nat) \<le> 2 ^ k" by simp
    ultimately have "n = mask (Suc k)"
      using m unfolding mask_eq_exp_minus_1 power_Suc by linarith
    then show ?thesis by blast
  qed
qed

lemma run_of_ones:
  fixes x :: "32 word"
  assumes "NOT x AND (NOT x + 1) = 0"
  shows "\<exists>k\<le>32. x = push_bit k (-1)"
proof (cases "NOT x = -1")
  case True
  then have "x = 0" by (metis bit.compl_one bit.double_compl)
  moreover have "push_bit 32 (-1 :: 32 word) = 0"
    by (simp add: push_bit_eq_mult)
  ultimately have "x = push_bit 32 (-1)" by simp
  then show ?thesis by blast
next
  case False
  define y where "y = NOT x"
  have ne: "y + 1 \<noteq> 0" using False unfolding y_def
    by (metis eq_neg_iff_add_eq_0)
  then have "unat (y + 1) = unat y + 1"
    by (simp add: add.commute unatSuc)
  moreover have "unat (y AND (y + 1)) = unat y AND unat (y + 1)"
    by (simp add: unsigned_and_eq)
  ultimately have "unat y AND (unat y + 1) = 0" using assms unfolding y_def [symmetric]
    by simp
  then obtain k where k: "unat y = mask k" using and_succ_nat by blast
  have "k \<le> 32"
  proof (rule ccontr)
    assume "\<not> k \<le> 32"
    then have "(2::nat) ^ 33 \<le> 2 ^ k" by (intro power_increasing) simp_all
    moreover have "unat y < 2 ^ 32" using unsigned_less [of y] by simp
    ultimately show False using k unfolding mask_eq_exp_minus_1 by simp
  qed
  have "y = of_nat (unat y)" by simp
  also have "\<dots> = mask k" unfolding k by (rule of_nat_mask_eq)
  finally have "y = mask k" .
  then have "x = push_bit k (-1)" unfolding y_def
    by (metis bit.double_compl push_bit_minus_one_eq_not_mask)
  with \<open>k \<le> 32\<close> show ?thesis by blast
qed

lemma run_accepted:
  fixes x :: "32 word"
  assumes "x = push_bit k (-1)"
  shows "NOT x AND (NOT x + 1) = 0"
proof -
  have "NOT x = mask k" using assms by simp
  moreover have "(mask k :: 32 word) + 1 = 2 ^ k" by (simp add: mask_eq_exp_minus_1)
  moreover have "(mask k :: 32 word) AND 2 ^ k = 0"
    by (rule bit_word_eqI) (auto simp add: bit_simps)
  ultimately show ?thesis by simp
qed

lemma ctz_from_lowest:
  "k < n \<Longrightarrow> bit x k \<Longrightarrow> (\<forall>i<k. \<not> bit x i) \<Longrightarrow> ctz_from n x = k"
proof (induction n arbitrary: x k)
  case 0
  then show ?case by simp
next
  case (Suc n)
  show ?case
  proof (cases k)
    case 0
    with Suc.prems show ?thesis by simp
  next
    case (Suc k')
    with Suc.prems have nb: "\<not> bit x 0" by simp
    have "bit (drop_bit 1 x) k'" using Suc.prems(2) Suc by (simp add: bit_drop_bit_eq)
    moreover have "\<forall>i<k'. \<not> bit (drop_bit 1 x) i"
      using Suc.prems(3) Suc by (simp add: bit_drop_bit_eq)
    moreover have "k' < n" using Suc.prems(1) Suc by simp
    ultimately have "ctz_from n (drop_bit 1 x) = k'" using Suc.IH by blast
    with nb Suc show ?thesis by simp
  qed
qed

lemma builtin_ctz_run:
  assumes "k < 32"
  shows "builtin_ctz (push_bit k (-1)) = k"
  unfolding builtin_ctz_def
  by (rule ctz_from_lowest) (use assms in \<open>auto simp add: bit_simps\<close>)

lemma netmaskToPrefix_run:
  assumes "k < 32"
  shows "netmaskToPrefix le (htobe32 le (push_bit k (-1))) = Inr (of_nat (32 - k))"
proof -
  define x :: "32 word" where "x = push_bit k (-1)"
  have "bit x k" unfolding x_def using assms by (simp add: bit_simps)
  then have nz: "x \<noteq> 0" by force
  have acc: "NOT x AND (NOT x + 1) = 0" using x_def by (rule run_accepted)
  have ctz: "builtin_ctz x = k" unfolding x_def using assms by (rule builtin_ctz_run)
  have "netmaskToPrefix le (htobe32 le x) = Inr (of_nat (32 - k))"
    unfolding netmaskToPrefix_def be32toh_htobe32 Let_def using nz acc ctz by simp
  then show ?thesis unfolding x_def .
qed

lemma shl32_nat:
  assumes "0 < k" "k \<le> 32"
  shows "shl32 x (32 - int k) = Inr (push_bit (32 - k) x)"
proof -
  have "nat (32 - int k) = 32 - k" by arith
  then show ?thesis using assms by (simp add: shl32_def)
qed

lemma shl32_prefix:
  fixes n :: uint8_t
  assumes "n \<noteq> 0" "n \<le> 32"
  shows "shl32 x (32 - uint n) = Inr (push_bit (32 - unat n) x)"
proof -
  have pos: "0 < unat n" using assms(1) by (simp add: unat_gt_0)
  have le: "unat n \<le> 32" using assms(2) by (simp add: word_le_nat_alt)
  show ?thesis unfolding uint_nat by (rule shl32_nat [OF pos le])
qed

lemma prefixToNetmask_defined: "prefixToNetmask le n \<noteq> Inl UndefinedShift"
proof (cases "n = 0 \<or> 32 < n")
  case True
  then show ?thesis by (auto simp add: prefixToNetmask_def)
next
  case False
  then have "n \<noteq> 0" "n \<le> 32" by (simp_all add: not_less)
  then show ?thesis by (simp add: prefixToNetmask_def shl32_prefix)
qed

lemma prefix_roundtrip:
  assumes "n \<le> 32"
  shows "\<exists>m. prefixToNetmask le n = Inr m \<and> netmaskToPrefix le m = Inr n"
proof (cases "n = 0")
  case True
  have "bswap32 0 = 0" by (simp add: bswap32_def)
  then show ?thesis using True
    by (simp add: prefixToNetmask_def netmaskToPrefix_def be32toh_def)
next
  case False
  then have pos: "0 < unat n" by (simp add: unat_gt_0)
  have le: "unat n \<le> 32" using assms by (simp add: word_le_nat_alt)
  have m: "prefixToNetmask le n = Inr (htobe32 le (push_bit (32 - unat n) (-1)))"
    using False assms by (simp add: prefixToNetmask_def shl32_prefix)
  have "netmaskToPrefix le (htobe32 le (push_bit (32 - unat n) (-1)))
        = Inr (of_nat (32 - (32 - unat n)))"
    by (rule netmaskToPrefix_run) (use pos in simp)
  also have "32 - (32 - unat n) = unat n" using le by simp
  finally show ?thesis using m by simp
qed

text \<open>
  Claim C6, as the code has it. For every prefix from 0 to 32, \<open>prefixToNetmask\<close>
  succeeds and \<open>netmaskToPrefix\<close> gives the prefix back; the prefix 0 yields the
  all-zero address, and no prefix at all makes \<open>prefixToNetmask\<close> evaluate an
  undefined 32-bit shift; a prefix above 32 is rejected with the internal failure; and
  a netmask that is not a left-aligned run of 1-bits is rejected, with the same
  internal failure (not with an invalid-parameter error). This holds on hosts of either
  byte order.
\<close>

theorem netmask_prefix_roundtrip:
  "(\<forall>n. n \<le> 32 \<longrightarrow> (\<exists>m. prefixToNetmask le n = Inr m \<and> netmaskToPrefix le m = Inr n))
   \<and> prefixToNetmask le 0 = Inr 0
   \<and> (\<forall>n. prefixToNetmask le n \<noteq> Inl UndefinedShift)
   \<and> (\<forall>n. 32 < n \<longrightarrow> prefixToNetmask le n = Inl InternalFailure)
   \<and> (\<forall>m. \<not> leftAlignedRun (be32toh le m) \<longrightarrow> netmaskToPrefix le m = Inl InternalFailure)"
proof (intro conjI allI impI)
  fix n :: uint8_t assume "n \<le> 32"
  then show "\<exists>m. prefixToNetmask le n = Inr m \<and> netmaskToPrefix le m = Inr n"
    by (rule prefix_roundtrip)
next
  show "prefixToNetmask le 0 = Inr 0" by (simp add: prefixToNetmask_def)
next
  fix n :: uint8_t
  show "prefixToNetmask le n \<noteq> Inl UndefinedShift" by (rule prefixToNetmask_defined)
next
  fix n :: uint8_t assume "32 < n"
  then show "prefixToNetmask le n = Inl InternalFailure" by (simp add: prefixToNetmask_def)
next
  fix m assume bad: "\<not> leftAlignedRun (be32toh le m)"
  show "netmaskToPrefix le m = Inl InternalFailure"
  proof (rule ccontr)
    assume "netmaskToPrefix le m \<noteq> Inl InternalFailure"
    then have "NOT (be32toh le m) AND (NOT (be32toh le m) + 1) = 0"
      by (simp add: netmaskToPrefix_def Let_def split: if_splits)
    then obtain k where "k \<le> 32" "be32toh le m = push_bit k (-1)"
      using run_of_ones by blast
    then have "leftAlignedRun (be32toh le m)"
      unfolding leftAlignedRun_def by (auto intro!: bexI [of _ k])
    with bad show False by simp
  qed
qed

text \<open>
  The theorem at the prefixes 0, 24 and 33 and at the netmask 255.0.255.0, on a
  little-endian host.
\<close>

theorem netmask_prefix_roundtrip_witness:
  "(24 :: uint8_t) \<le> 32
   \<and> prefixToNetmask True 24 = Inr 0x00FFFFFF
   \<and> netmaskToPrefix True 0x00FFFFFF = Inr 24
   \<and> prefixToNetmask True 0 = Inr 0
   \<and> prefixToNetmask True 0 \<noteq> Inl UndefinedShift
   \<and> (32 :: uint8_t) < 33
   \<and> prefixToNetmask True 33 = Inl InternalFailure
   \<and> \<not> leftAlignedRun (be32toh True 0x00FF00FF)
   \<and> netmaskToPrefix True 0x00FF00FF = Inl InternalFailure"
proof -
  have h1: "(24 :: uint8_t) \<le> 32" by simp
  have h2: "(32 :: uint8_t) < 33" by simp
  have h3: "\<not> leftAlignedRun (be32toh True 0x00FF00FF)" by code_simp
  have m: "prefixToNetmask True 24 = Inr 0x00FFFFFF" by code_simp
  note main = netmask_prefix_roundtrip [of True]
  from main h1 obtain m' where "prefixToNetmask True 24 = Inr m'"
    and inv: "netmaskToPrefix True m' = Inr 24" by blast
  with m have rt: "netmaskToPrefix True 0x00FFFFFF = Inr 24" by simp
  from main have zero: "prefixToNetmask True 0 = Inr 0" by blast
  from main have def: "prefixToNetmask True 0 \<noteq> Inl UndefinedShift" by blast
  from main h2 have big: "prefixToNetmask True 33 = Inl InternalFailure" by blast
  from main h3 have bad: "netmaskToPrefix True 0x00FF00FF = Inl InternalFailure" by blast
  from h1 m rt zero def h2 big h3 bad show ?thesis by simp
qed

text \<open>
  Claim C6 as stated expects an invalid-parameter error from \<open>netmaskToPrefix\<close>,
  distinct from the internal error of \<open>prefixToNetmask\<close>. The netmask 255.0.255.0 is
  rejected with the internal failure, the very error \<open>prefixToNetmask\<close> raises.
\<close>

theorem netmaskToPrefix_error_counterexample:
  "\<not> leftAlignedRun (be32toh True 0x00FF00FF)
   \<and> netmaskToPrefix True 0x00FF00FF = Inl InternalFailure
   \<and> prefixToNetmask True 33 = Inl InternalFailure"
proof -
  have "\<not> leftAlignedRun (be32toh True 0x00FF00FF)" by code_simp
  moreover have "netmaskToPrefix True 0x00FF00FF = Inl InternalFailure" by code_simp
  moreover have "prefixToNetmask True 33 = Inl InternalFailure" by code_simp
  ultimately show ?thesis by simp
qed

section \<open>The handlers: proofs\<close>

lemmas monad_defs = returnM_def throwM_def bindM_def liftBus_def

text \<open>
  Claim C2 at the pair the code gets wrong. With the current mode \<open>v6\<close> and the
  request \<open>none\<close>, \<open>setDHCPv4Property\<close> writes \<open>none\<close>: turning DHCPv4 off turns
  DHCPv6 off as well, where the claim leaves the mode unchanged. The v6 function in its
  default mode does the same to \<open>v4\<close>.
\<close>

theorem setDHCPv4Property_clears_v6:
  "fst (getDHCPProperty exParams (exBus v6 [])) = Inr v6
   \<and> fst (setDHCPv4Property exParams none (exBus v6 [])) = Inr ()
   \<and> fst (getDHCPProperty exParams (snd (setDHCPv4Property exParams none (exBus v6 [])))) = Inr none
   \<and> fst (getDHCPProperty exParams (exBus v4 [])) = Inr v4
   \<and> fst (setDHCPv6Property exParams none True (exBus v4 [])) = Inr ()
   \<and> fst (getDHCPProperty exParams
             (snd (setDHCPv6Property exParams none True (exBus v4 [])))) = Inr none"
  by code_simp

text \<open>
  Claim C4 at the input the code gets wrong. With no IPv4 address on the interface and
  a new address supplied, \<open>reconfigureIfAddr4\<close> evaluates \<^verbatim>\<open>ifaddr->address\<close> on the
  empty optional before it creates anything.
\<close>

theorem reconfigureIfAddr4_absent_prior:
  "fst (getIfAddr4 exParams (exBus none [])) = Inr None
   \<and> fst (reconfigureIfAddr4 exParams (Some (in_addr 5)) None (exBus none []))
       = Inl EmptyOptionalAccess"
  by code_simp

text \<open>
  Claim C3. On a valid channel, for a well-formed SetStatus request with zero reserved
  bits, with the stored status read from the map \<open>setStatus\<close> (a channel without an
  entry counts as Complete): Complete (0) succeeds and stores Complete; InProgress (1)
  succeeds and stores InProgress unless InProgress is stored already, when it returns
  the parameter-locked code and changes nothing; Commit (2) returns the invalid-field
  error while Complete is stored, which stays stored, and succeeds, changing nothing,
  while InProgress is stored. The bus is not touched.
\<close>

theorem setStatus_latch:
  assumes valid: "isValidChannel e (convertCurrentChannelNum e (ucast channelBits) ctx)"
    and req: "unpackSetStatus req = Some (flag, 0)"
  shows "(let ch = convertCurrentChannelNum e (ucast channelBits) ctx;
              stored = setStatus st ch;
              r = setLan e ctx channelBits 0 SetStatus req st
          in (flag = 0 \<longrightarrow> fst r = Inr ccSuccess \<and> setStatus (snd r) ch = Some Complete)
           \<and> (flag = 1 \<and> stored \<noteq> Some InProgress \<longrightarrow>
                fst r = Inr ccSuccess \<and> setStatus (snd r) ch = Some InProgress)
           \<and> (flag = 1 \<and> stored = Some InProgress \<longrightarrow>
                fst r = Inr ccParamSetLocked \<and> snd r = st)
           \<and> (flag = 2 \<and> (stored = None \<or> stored = Some Complete) \<longrightarrow>
                fst r = Inr ccInvalidFieldRequest \<and> setStatus (snd r) ch = Some Complete)
           \<and> (flag = 2 \<and> stored = Some InProgress \<longrightarrow> fst r = Inr ccSuccess \<and> snd r = st)
           \<and> dbus (snd r) = dbus st)"
  using valid req
  by (auto simp add: setLan_def setLanSetStatus_def getSetStatus_def assignSetStatus_def
      toSetStatus_def Let_def split: option.splits)

text \<open>
  Claim C8. \<open>deleteObjectIfExists\<close> does nothing for an empty path; for another path,
  an error reply named as the internal failure or as the unknown object is swallowed,
  every other error reply is rethrown, and a successful deletion returns normally.
\<close>

theorem deleteObjectIfExists_errors:
  "deleteObjectIfExists svc [] b = (Inr (), b)
   \<and> (p \<noteq> [] \<and> Delete svc p b = (Inl (SdBusError name), b')
        \<and> (name = InternalFailureName \<or> name = UnknownObject)
       \<longrightarrow> deleteObjectIfExists svc p b = (Inr (), b'))
   \<and> (p \<noteq> [] \<and> Delete svc p b = (Inl (SdBusError name), b')
        \<and> name \<noteq> InternalFailureName \<and> name \<noteq> UnknownObject
       \<longrightarrow> deleteObjectIfExists svc p b = (Inl (SdBusError name), b'))
   \<and> (p \<noteq> [] \<and> Delete svc p b = (Inr (), b') \<longrightarrow> deleteObjectIfExists svc p b = (Inr (), b'))"
  by (auto simp add: deleteObjectIfExists_def)

text \<open>
  Claim C9. A read of IPv6StaticAddresses whose set selector is at least
  \<open>MAX_IPV6_STATIC_ADDRESSES\<close> returns the parameter-out-of-range code and leaves the
  whole state as it was, the log of bus requests included: no request is made.
\<close>

theorem getLan_static_out_of_range:
  assumes "isValidChannel e (convertCurrentChannelNum e (ucast channelBits) ctx)"
    and "MAX_IPV6_STATIC_ADDRESSES e \<le> selector"
  shows "getLan e ctx channelBits 0 False IPv6StaticAddresses selector block st
         = (Inr (ccParmOutOfRange, []), st)"
  using assms by (simp add: getLan_def monad_defs)

text \<open>
  Claim C10. A write of IPv6StaticAddresses with a well-formed payload and zero
  reserved bits hands the set selector, whatever its value, to \<open>reconfigureIfAddr6\<close>
  (enabled) or \<open>deconfigureIfAddr6\<close> (disabled) and answers success when that
  returns; it never answers parameter-out-of-range.
\<close>

theorem setLan_static_unchecked:
  assumes "isValidChannel e (convertCurrentChannelNum e (ucast channelBits) ctx)"
    and "unpackIPv6Static req = Some (selector, 0, enabled, ipbytes, n, status)"
  shows "setLan e ctx channelBits 0 IPv6StaticAddresses req st =
           bindM (liftBus (channelCall e (convertCurrentChannelNum e (ucast channelBits) ctx)
                    (\<lambda>params.
                       if enabled then reconfigureIfAddr6 params selector (in6_addr ipbytes) n
                       else deconfigureIfAddr6 params selector)))
             (\<lambda>_. returnM ccSuccess) st
         \<and> fst (setLan e ctx channelBits 0 IPv6StaticAddresses req st) \<noteq> Inr ccParmOutOfRange"
proof -
  have eq: "setLan e ctx channelBits 0 IPv6StaticAddresses req st =
           bindM (liftBus (channelCall e (convertCurrentChannelNum e (ucast channelBits) ctx)
                    (\<lambda>params.
                       if enabled then reconfigureIfAddr6 params selector (in6_addr ipbytes) n
                       else deconfigureIfAddr6 params selector)))
             (\<lambda>_. returnM ccSuccess) st"
    using assms
    by (cases enabled) (simp_all add: setLan_def setLanIPv6StaticAddresses_def Let_def)
  have "fst (bindM m (\<lambda>_. returnM ccSuccess) st) \<noteq> Inr ccParmOutOfRange"
    for m :: "(ipmid, unit) M"
    by (simp add: bindM_def returnM_def split: prod.splits sum.splits)
  with eq show ?thesis by simp
qed


text \<open>
  The latch on channel 1 of the example, whose map is empty: the first InProgress
  succeeds and is stored; on the state it leaves, a second InProgress is locked out, a
  Commit succeeds and a Complete is stored; a Commit on the fresh state is refused.
\<close>

theorem setStatus_latch_witness:
  "isValidChannel exEnv (convertCurrentChannelNum exEnv (ucast (1 :: 4 word)) 1)
   \<and> unpackSetStatus [1] = Some (1, 0) \<and> unpackSetStatus [2] = Some (2, 0)
   \<and> unpackSetStatus [0] = Some (0, 0)
   \<and> setStatus (exState (exBus none [])) 1 = None
   \<and> fst (setLan exEnv 1 1 0 SetStatus [1] (exState (exBus none []))) = Inr ccSuccess
   \<and> setStatus (snd (setLan exEnv 1 1 0 SetStatus [1] (exState (exBus none [])))) 1
       = Some InProgress
   \<and> fst (setLan exEnv 1 1 0 SetStatus [1]
            (snd (setLan exEnv 1 1 0 SetStatus [1] (exState (exBus none [])))))
       = Inr ccParamSetLocked
   \<and> fst (setLan exEnv 1 1 0 SetStatus [2]
            (snd (setLan exEnv 1 1 0 SetStatus [1] (exState (exBus none [])))))
       = Inr ccSuccess
   \<and> setStatus (snd (setLan exEnv 1 1 0 SetStatus [0]
                       (snd (setLan exEnv 1 1 0 SetStatus [1] (exState (exBus none []))))))
        1 = Some Complete
   \<and> fst (setLan exEnv 1 1 0 SetStatus [2] (exState (exBus none [])))
       = Inr ccInvalidFieldRequest"
proof -
  define st0 where "st0 = exState (exBus none [])"
  define st1 where "st1 = snd (setLan exEnv 1 1 0 SetStatus [1] st0)"
  have h1: "isValidChannel exEnv (convertCurrentChannelNum exEnv (ucast (1 :: 4 word)) 1)"
    by (simp add: exEnv_def)
  have u1: "unpackSetStatus [1] = Some (1, 0)" by (simp add: unpackSetStatus_def)
  have u2: "unpackSetStatus [2] = Some (2, 0)" by (simp add: unpackSetStatus_def)
  have u0: "unpackSetStatus [0] = Some (0, 0)" by (simp add: unpackSetStatus_def)
  have ch: "convertCurrentChannelNum exEnv 1 1 = 1" by (simp add: exEnv_def)
  have e0: "setStatus st0 1 = None" by (simp add: st0_def exState_def)
  have a: "fst (setLan exEnv 1 1 0 SetStatus [1] st0) = Inr ccSuccess"
    and a': "setStatus st1 1 = Some InProgress"
    using setStatus_latch [OF h1 u1, of st0] e0 by (simp_all add: Let_def ch st1_def)
  have b: "fst (setLan exEnv 1 1 0 SetStatus [1] st1) = Inr ccParamSetLocked"
    using setStatus_latch [OF h1 u1, of st1] a' by (simp add: Let_def ch)
  have c: "fst (setLan exEnv 1 1 0 SetStatus [2] st1) = Inr ccSuccess"
    using setStatus_latch [OF h1 u2, of st1] a' by (simp add: Let_def ch)
  have d: "setStatus (snd (setLan exEnv 1 1 0 SetStatus [0] st1)) 1 = Some Complete"
    using setStatus_latch [OF h1 u0, of st1] by (simp add: Let_def ch)
  have f: "fst (setLan exEnv 1 1 0 SetStatus [2] st0) = Inr ccInvalidFieldRequest"
    using setStatus_latch [OF h1 u2, of st0] e0 by (simp add: Let_def ch)
  from h1 u1 u2 u0 e0 a a' b c d f show ?thesis
    unfolding st1_def st0_def by (intro conjI)
qed

text \<open>
  A service that answers every request with \<open>NoReply\<close>: the error is rethrown. A
  service that does not know the object: the error is swallowed.
\<close>

theorem deleteObjectIfExists_errors_witness:
  "''/net/eth0/ipv4/a'' \<noteq> []
   \<and> ''NoReply'' \<noteq> InternalFailureName \<and> ''NoReply'' \<noteq> UnknownObject
   \<and> fst (Delete ''nw'' ''/net/eth0/ipv4/a''
            ((exBus none [])\<lparr>fault := (\<lambda>c. Some ''NoReply'')\<rparr>)) = Inl (SdBusError ''NoReply'')
   \<and> fst (deleteObjectIfExists ''nw'' ''/net/eth0/ipv4/a''
            ((exBus none [])\<lparr>fault := (\<lambda>c. Some ''NoReply'')\<rparr>)) = Inl (SdBusError ''NoReply'')
   \<and> fst (Delete ''nw'' ''/net/eth0/ipv4/a'' (exBus none [])) = Inl (SdBusError UnknownObject)
   \<and> fst (deleteObjectIfExists ''nw'' ''/net/eth0/ipv4/a'' (exBus none [])) = Inr ()"
proof -
  define b1 where "b1 = (exBus none [])\<lparr>fault := (\<lambda>c. Some ''NoReply'')\<rparr>"
  define b1' where "b1' = snd (Delete ''nw'' ''/net/eth0/ipv4/a'' b1)"
  define b2' where "b2' = snd (Delete ''nw'' ''/net/eth0/ipv4/a'' (exBus none []))"
  have n1: "''/net/eth0/ipv4/a'' \<noteq> []" by simp
  have n2: "''NoReply'' \<noteq> InternalFailureName \<and> ''NoReply'' \<noteq> UnknownObject"
    by (simp add: InternalFailureName_def UnknownObject_def)
  have d1: "Delete ''nw'' ''/net/eth0/ipv4/a'' b1 = (Inl (SdBusError ''NoReply''), b1')"
    unfolding b1'_def b1_def by (simp add: Delete_def busCall_def bindM_def exBus_def)
  have d2: "Delete ''nw'' ''/net/eth0/ipv4/a'' (exBus none [])
            = (Inl (SdBusError UnknownObject), b2')"
    unfolding b2'_def
    by (simp add: Delete_def busCall_def bindM_def exBus_def deletable_def)
  from deleteObjectIfExists_errors [of "''nw''" b1 "''/net/eth0/ipv4/a''" "''NoReply''" b1']
    n1 n2 d1
  have r1: "deleteObjectIfExists ''nw'' ''/net/eth0/ipv4/a'' b1
            = (Inl (SdBusError ''NoReply''), b1')" by blast
  from deleteObjectIfExists_errors
    [of "''nw''" "exBus none []" "''/net/eth0/ipv4/a''" UnknownObject b2'] n1 d2
  have r2: "deleteObjectIfExists ''nw'' ''/net/eth0/ipv4/a'' (exBus none []) = (Inr (), b2')"
    by blast
  from n1 n2 d1 d2 r1 r2 show ?thesis unfolding b1_def by simp
qed

text \<open>Selector 15 with 15 static slots: out of range, and the log stays empty.\<close>

theorem getLan_static_out_of_range_witness:
  "isValidChannel exEnv (convertCurrentChannelNum exEnv (ucast (1 :: 4 word)) 1)
   \<and> MAX_IPV6_STATIC_ADDRESSES exEnv \<le> 15
   \<and> getLan exEnv 1 1 0 False IPv6StaticAddresses 15 0 (exState (exBus none []))
       = (Inr (ccParmOutOfRange, []), exState (exBus none []))
   \<and> calls (dbus (snd (getLan exEnv 1 1 0 False IPv6StaticAddresses 15 0
                          (exState (exBus none []))))) = []"
proof -
  have h1: "isValidChannel exEnv (convertCurrentChannelNum exEnv (ucast (1 :: 4 word)) 1)"
    by (simp add: exEnv_def)
  have h2: "MAX_IPV6_STATIC_ADDRESSES exEnv \<le> 15" by (simp add: exEnv_def)
  from getLan_static_out_of_range [OF h1 h2, of 0 "exState (exBus none [])"] h1 h2
  show ?thesis by (simp add: exState_def exBus_def)
qed

text \<open>Selector 200 with 15 static slots is not refused.\<close>

theorem setLan_static_unchecked_witness:
  "isValidChannel exEnv (convertCurrentChannelNum exEnv (ucast (1 :: 4 word)) 1)
   \<and> unpackIPv6Static (200 # 0x80 # replicate 16 7 @ [64, 0])
       = Some (200, 0, True, replicate 16 7, 64, 0)
   \<and> MAX_IPV6_STATIC_ADDRESSES exEnv \<le> 200
   \<and> fst (setLan exEnv 1 1 0 IPv6StaticAddresses (200 # 0x80 # replicate 16 7 @ [64, 0])
            (exState (exBus none []))) \<noteq> Inr ccParmOutOfRange"
proof -
  have h1: "isValidChannel exEnv (convertCurrentChannelNum exEnv (ucast (1 :: 4 word)) 1)"
    by (simp add: exEnv_def)
  have h2: "unpackIPv6Static (200 # 0x80 # replicate 16 7 @ [64, 0])
            = Some (200, 0, True, replicate 16 7, 64, 0)"
    by code_simp
  have h3: "MAX_IPV6_STATIC_ADDRESSES exEnv \<le> 200" by (simp add: exEnv_def)
  have r: "fst (setLan exEnv 1 1 0 IPv6StaticAddresses (200 # 0x80 # replicate 16 7 @ [64, 0])
                 (exState (exBus none []))) \<noteq> Inr ccParmOutOfRange"
    using setLan_static_unchecked [OF h1 h2, of "exState (exBus none [])"]
    by (rule conjunct2)
  from h1 h2 h3 r show ?thesis by (intro conjI)
qed

lemma busCall_frame: "busCall c b = (r, b') \<Longrightarrow> b' = b\<lparr>calls := calls b'\<rparr>"
  by (auto simp add: busCall_def Let_def split: option.splits)

lemma GetSubTree_frame: "GetSubTree root is b = (r, b') \<Longrightarrow> b' = b\<lparr>calls := calls b'\<rparr>"
  by (auto simp add: GetSubTree_def bindM_def busCall_def Let_def split: option.splits)

lemma GetDHCPEnabled_frame:
  "GetDHCPEnabled svc p b = (r, b') \<Longrightarrow> b' = b\<lparr>calls := calls b'\<rparr>"
  by (auto simp add: GetDHCPEnabled_def bindM_def busCall_def Let_def split: option.splits)

lemma frame_trans:
  "b1 = b\<lparr>calls := calls b1\<rparr> \<Longrightarrow> b2 = b1\<lparr>calls := calls b2\<rparr> \<Longrightarrow> b2 = b\<lparr>calls := calls b2\<rparr>"
  by (metis bus.update_convs(4) bus.surjective bus.simps)


lemma maybeGetChannelParams_frame:
  assumes "maybeGetChannelParams e channel b = (r, b')"
  shows "b' = b\<lparr>calls := calls b'\<rparr>"
proof (cases "getChannelName e channel = []")
  case True
  with assms show ?thesis by (simp add: maybeGetChannelParams_def returnM_def)
next
  case False
  obtain r1 b1 where g: "GetSubTree (PATH_ROOT e) [INTF_VLAN, INTF_ETHERNET] b = (r1, b1)"
    by (cases "GetSubTree (PATH_ROOT e) [INTF_VLAN, INTF_ETHERNET] b")
  then have f: "b1 = b\<lparr>calls := calls b1\<rparr>" by (rule GetSubTree_frame)
  have "b' = b1"
    using assms False g
    by (cases r1) (auto simp add: maybeGetChannelParams_def bindM_def returnM_def Let_def
        split: if_splits)
  with f show ?thesis by simp
qed

lemma channelCall_getDHCPProperty_frame:
  assumes "channelCall e channel getDHCPProperty b = (r, b')"
  shows "b' = b\<lparr>calls := calls b'\<rparr>"
proof -
  obtain r1 b1 where m: "maybeGetChannelParams e channel b = (r1, b1)"
    by (cases "maybeGetChannelParams e channel b")
  then have f1: "b1 = b\<lparr>calls := calls b1\<rparr>" by (rule maybeGetChannelParams_frame)
  show ?thesis
  proof (cases r1)
    case (Inl x)
    with assms m have "b' = b1" by (simp add: channelCall_def bindM_def)
    with f1 show ?thesis by simp
  next
    case (Inr po)
    show ?thesis
    proof (cases po)
      case None
      with assms m Inr have "b' = b1" by (simp add: channelCall_def bindM_def throwM_def)
      with f1 show ?thesis by simp
    next
      case (Some params)
      with assms m Inr have "GetDHCPEnabled (service params) (logicalPath params) b1 = (r, b')"
        by (simp add: channelCall_def bindM_def getDHCPProperty_def)
      then have "b' = b1\<lparr>calls := calls b'\<rparr>" by (rule GetDHCPEnabled_frame)
      with f1 show ?thesis by (rule frame_trans)
    qed
  qed
qed

text \<open>
  Claim C7. While the DHCP mode of the channel reads \<open>v4\<close> or \<open>both\<close>, a write of IP,
  SubnetMask or Gateway1 returns the command-not-available code, whatever the payload,
  and the state afterwards differs from the state before only in the log of bus
  requests (the reads that resolved the channel and fetched the mode).
\<close>

theorem setLan_rejected_while_dhcp4:
  assumes valid: "isValidChannel e (convertCurrentChannelNum e (ucast channelBits) ctx)"
    and dhcp: "fst (channelCall e (convertCurrentChannelNum e (ucast channelBits) ctx)
                      getDHCPProperty (dbus st)) = Inr d"
    and active: "d = v4 \<or> d = both"
    and param: "parameter = IP \<or> parameter = SubnetMask \<or> parameter = Gateway1"
  shows "\<exists>log. setLan e ctx channelBits 0 parameter req st
               = (Inr ccCommandNotAvailable, st\<lparr>dbus := (dbus st)\<lparr>calls := log\<rparr>\<rparr>)"
proof -
  define ch where "ch = convertCurrentChannelNum e (ucast channelBits) ctx"
  obtain b' where run: "channelCall e ch getDHCPProperty (dbus st) = (Inr d, b')"
    using dhcp unfolding ch_def
    by (cases "channelCall e (convertCurrentChannelNum e (ucast channelBits) ctx)
                 getDHCPProperty (dbus st)") simp
  then have frame: "b' = (dbus st)\<lparr>calls := calls b'\<rparr>"
    by (rule channelCall_getDHCPProperty_frame)
  have "setLan e ctx channelBits 0 parameter req st
        = (Inr ccCommandNotAvailable, st\<lparr>dbus := b'\<rparr>)"
    using valid run active param unfolding ch_def
    by (auto simp add: setLan_def setLanIP_def setLanSubnetMask_def setLanGateway1_def
        bindM_def liftBus_def returnM_def Let_def)
  with frame show ?thesis by metis
qed

text \<open>A netmask write on the example channel while its mode is \<open>both\<close>.\<close>

theorem setLan_rejected_while_dhcp4_witness:
  "isValidChannel exEnv (convertCurrentChannelNum exEnv (ucast (1 :: 4 word)) 1)
   \<and> fst (channelCall exEnv (convertCurrentChannelNum exEnv (ucast (1 :: 4 word)) 1)
            getDHCPProperty (dbus (exState (exBus both [])))) = Inr both
   \<and> fst (setLan exEnv 1 1 0 SubnetMask [255, 255, 255, 0] (exState (exBus both [])))
       = Inr ccCommandNotAvailable
   \<and> objs (dbus (snd (setLan exEnv 1 1 0 SubnetMask [255, 255, 255, 0]
                          (exState (exBus both []))))) = objs (exBus both [])
   \<and> gateway (dbus (snd (setLan exEnv 1 1 0 SubnetMask [255, 255, 255, 0]
                             (exState (exBus both []))))) = gateway (exBus both [])"
proof -
  have h1: "isValidChannel exEnv (convertCurrentChannelNum exEnv (ucast (1 :: 4 word)) 1)"
    by (simp add: exEnv_def)
  have h2: "fst (channelCall exEnv (convertCurrentChannelNum exEnv (ucast (1 :: 4 word)) 1)
                   getDHCPProperty (dbus (exState (exBus both [])))) = Inr both"
    by code_simp
  obtain log where "setLan exEnv 1 1 0 SubnetMask [255, 255, 255, 0] (exState (exBus both []))
      = (Inr ccCommandNotAvailable,
         (exState (exBus both []))\<lparr>dbus := (dbus (exState (exBus both [])))\<lparr>calls := log\<rparr>\<rparr>)"
    using setLan_rejected_while_dhcp4 [OF h1 h2, of SubnetMask "[255, 255, 255, 0]"] by auto
  with h1 h2 show ?thesis by (simp add: exState_def)
qed

section \<open>VLAN reconfiguration: proofs\<close>

declare collectIfAddrs6.simps [simp del]

lemma evolves_refl: "evolves b (objs b) b"
  unfolding evolves_def by (rule exI [of _ "calls b"]) simp

lemma evolves_fields:
  assumes "evolves b os b'"
  shows "objs b' = os" "fault b' = fault b" "gateway b' = gateway b"
    "ipName b' = ipName b" "neighName b' = neighName b" "vlanName b' = vlanName b"
proof -
  obtain cs where "b' = b\<lparr>objs := os, calls := cs\<rparr>"
    using assms unfolding evolves_def by blast
  then show "objs b' = os" "fault b' = fault b" "gateway b' = gateway b"
    "ipName b' = ipName b" "neighName b' = neighName b" "vlanName b' = vlanName b"
    by simp_all
qed

lemma evolves_nofault: "evolves b os b' \<Longrightarrow> nofault b \<Longrightarrow> nofault b'"
  by (simp add: nofault_def evolves_fields)

lemma evolves_trans:
  assumes "evolves b os b1" "evolves b1 os' b2"
  shows "evolves b os' b2"
proof -
  obtain cs1 where "b1 = b\<lparr>objs := os, calls := cs1\<rparr>"
    using assms(1) unfolding evolves_def by blast
  moreover obtain cs2 where "b2 = b1\<lparr>objs := os', calls := cs2\<rparr>"
    using assms(2) unfolding evolves_def by blast
  ultimately have "b2 = b\<lparr>objs := os', calls := cs2\<rparr>" by simp
  then show ?thesis unfolding evolves_def by blast
qed

lemma bindM_Inr: "m s = (Inr x, s') \<Longrightarrow> bindM m f s = f x s'"
  by (simp add: bindM_def)

lemma bindM_Inl: "m s = (Inl x, s') \<Longrightarrow> bindM m f s = (Inl x, s')"
  by (simp add: bindM_def)

lemma busCall_ok:
  assumes "nofault b"
  shows "busCall c b = (Inr (), b\<lparr>calls := calls b @ [c]\<rparr>)"
  using assms by (simp add: busCall_def nofault_def)

lemma evolves_log: "evolves b (objs b) (b\<lparr>calls := cs\<rparr>)"
  unfolding evolves_def by (rule exI [of _ cs]) simp

lemma evolves_log_objs: "evolves b os (b\<lparr>calls := cs, objs := os\<rparr>)"
  unfolding evolves_def by (rule exI [of _ cs]) simp

lemma GetSubTree_ok:
  assumes "nofault b"
  shows "\<exists>b'. GetSubTree root is b = (Inr (subTree root is (objs b)), b') \<and> evolves b (objs b) b'"
  using assms by (simp add: GetSubTree_def busCall_ok bindM_def evolves_log)

lemma GetDHCPEnabled_ok:
  assumes "nofault b" "dhcpAt p (objs b) = Some d"
  shows "\<exists>b'. GetDHCPEnabled svc p b = (Inr d, b') \<and> evolves b (objs b) b'"
  using assms by (simp add: GetDHCPEnabled_def busCall_ok bindM_def evolves_log)

lemma SetDHCPEnabled_ok:
  assumes "nofault b" "dhcpAt p (objs b) \<noteq> None"
  shows "\<exists>b'. SetDHCPEnabled svc p d b = (Inr (), b')
              \<and> evolves b (map (setDhcpAt p d) (objs b)) b'"
  using assms by (simp add: SetDHCPEnabled_def busCall_ok bindM_def evolves_log_objs)

lemma GetGateway_ok:
  assumes "nofault b"
  shows "\<exists>b'. GetGateway svc fam b = (Inr (gateway b fam), b') \<and> evolves b (objs b) b'"
  using assms by (simp add: GetGateway_def busCall_ok bindM_def evolves_log)

lemma GetVlanId_ok:
  assumes "nofault b" "vlanIdAt p (objs b) = Some i"
  shows "\<exists>b'. GetVlanId svc p b = (Inr i, b') \<and> evolves b (objs b) b'"
  using assms by (simp add: GetVlanId_def busCall_ok bindM_def evolves_log)

lemma CreateIP_ok:
  assumes "nofault b" "dhcpAt p (objs b) \<noteq> None"
  shows "\<exists>b'. CreateIP svc p a n b = (Inr (), b')
     \<and> evolves b (objs b @ [\<lparr>opath = p @ familyDir a @ ipName b a n, oservice = svc,
                              okind = IpAddr a n Static\<rparr>]) b'"
  using assms by (simp add: CreateIP_def busCall_ok bindM_def evolves_log_objs)

lemma CreateNeighbor_ok:
  assumes "nofault b" "dhcpAt p (objs b) \<noteq> None"
  shows "\<exists>b'. CreateNeighbor svc p a m b = (Inr (), b')
     \<and> evolves b (objs b @ [\<lparr>opath = p @ ''/static_neighbor/'' @ neighName b a m,
                              oservice = svc, okind = StaticNeighbor a m\<rparr>]) b'"
  using assms by (simp add: CreateNeighbor_def busCall_ok bindM_def evolves_log_objs)

lemma CreateVLAN_ok:
  assumes "nofault b"
  shows "\<exists>b'. CreateVLAN svc root name i b = (Inr (vlanPath b root name i), b')
     \<and> evolves b (objs b @ [\<lparr>opath = vlanPath b root name i, oservice = svc,
                              okind = VlanIf i none\<rparr>]) b'"
  using assms by (simp add: CreateVLAN_def busCall_ok bindM_def evolves_log_objs vlanPath_def)

lemma deleteObjectIfExists_ok:
  assumes "nofault b" "p \<noteq> []"
  shows "\<exists>b'. deleteObjectIfExists svc p b = (Inr (), b')
     \<and> evolves b (filter (\<lambda>ob. \<not> (opath ob = p \<and> deletable ob)) (objs b)) b'"
proof (cases "list_ex (\<lambda>ob. opath ob = p \<and> deletable ob) (objs b)")
  case True
  then show ?thesis using assms
    by (simp add: deleteObjectIfExists_def Delete_def busCall_ok bindM_def evolves_log_objs)
next
  case False
  then have "filter (\<lambda>ob. \<not> (opath ob = p \<and> deletable ob)) (objs b) = objs b"
    by (auto simp add: list_ex_iff filter_id_conv)
  then show ?thesis using assms False
    by (simp add: deleteObjectIfExists_def Delete_def busCall_ok bindM_def evolves_log
        UnknownObject_def InternalFailureName_def)
qed

lemma dhcpAt_None_iff:
  "dhcpAt p os = None \<longleftrightarrow> (\<forall>ob \<in> set os. opath ob = p \<longrightarrow> dhcpOf (okind ob) = None)"
  by (induction os) (auto split: option.splits)

lemma dhcpAt_append: "dhcpAt p os \<noteq> None \<Longrightarrow> dhcpAt p (os @ xs) \<noteq> None"
  by (auto simp add: dhcpAt_None_iff)

lemma contains_nonempty: "contains p name \<Longrightarrow> name \<noteq> [] \<Longrightarrow> p \<noteq> []"
  by (cases p) auto

lemma createIfAddr_ok:
  assumes "nofault b" "dhcpAt (logicalPath params) (objs b) \<noteq> None"
  shows "\<exists>b'. createIfAddr params (address a) (prefixLen a) b = (Inr (), b')
     \<and> evolves b (objs b @ [ipObj b (service params) (logicalPath params) a]) b'"
  using CreateIP_ok [OF assms] by (simp add: createIfAddr_def ipObj_def)

lemma createIfAddrs_ok:
  assumes "nofault b" "dhcpAt (logicalPath params) (objs b) \<noteq> None"
  shows "\<exists>b'. createIfAddrs params as b = (Inr (), b')
     \<and> evolves b (objs b @ map (ipObj b (service params) (logicalPath params)) as) b'"
  using assms
proof (induction as arbitrary: b)
  case Nil
  then show ?case by (simp add: returnM_def evolves_refl)
next
  case (Cons a as)
  obtain b1 where c: "createIfAddr params (address a) (prefixLen a) b = (Inr (), b1)"
    and e1: "evolves b (objs b @ [ipObj b (service params) (logicalPath params) a]) b1"
    using createIfAddr_ok [OF Cons.prems] by blast
  have nf: "nofault b1" using e1 Cons.prems(1) by (rule evolves_nofault)
  have o1: "objs b1 = objs b @ [ipObj b (service params) (logicalPath params) a]"
    using e1 by (rule evolves_fields)
  have d1: "dhcpAt (logicalPath params) (objs b1) \<noteq> None"
    unfolding o1 using Cons.prems(2) by (rule dhcpAt_append)
  obtain b2 where r: "createIfAddrs params as b1 = (Inr (), b2)"
    and e2: "evolves b1 (objs b1 @ map (ipObj b1 (service params) (logicalPath params)) as) b2"
    using Cons.IH [OF nf d1] by blast
  have same: "ipObj b1 = ipObj b"
    by (intro ext) (simp add: ipObj_def evolves_fields [OF e1])
  have "createIfAddrs params (a # as) b = (Inr (), b2)"
    using c r by (simp add: bindM_Inr)
  moreover have "evolves b (objs b @ map (ipObj b (service params) (logicalPath params)) (a # as)) b2"
    using evolves_trans [OF e1 e2] by (simp add: o1 same)
  ultimately show ?case by blast
qed

lemma restoreNeighbor_ok:
  assumes "nofault b" "dhcpAt (logicalPath params) (objs b) \<noteq> None"
  shows "\<exists>b'. restoreNeighbor params neighbor b = (Inr (), b')
     \<and> evolves b (objs b @ map (neighObj b (service params) (logicalPath params))
                              (optList neighbor)) b'"
proof (cases neighbor)
  case None
  then show ?thesis by (simp add: restoreNeighbor_def returnM_def evolves_refl)
next
  case (Some n)
  then show ?thesis
    using CreateNeighbor_ok [OF assms]
    by (simp add: restoreNeighbor_def createNeighbor_def neighObj_def)
qed

lemma getDHCPProperty_ok:
  assumes "nofault b" "dhcpAt (logicalPath params) (objs b) = Some d"
  shows "\<exists>b'. getDHCPProperty params b = (Inr d, b') \<and> evolves b (objs b) b'"
  using GetDHCPEnabled_ok [OF assms] by (simp add: getDHCPProperty_def)

lemma setDHCPv6Property_verbatim_ok:
  assumes "nofault b" "dhcpAt (logicalPath params) (objs b) \<noteq> None"
  shows "\<exists>b'. setDHCPv6Property params d False b = (Inr (), b')
     \<and> evolves b (map (setDhcpAt (logicalPath params) d) (objs b)) b'"
proof -
  obtain d0 where d0: "dhcpAt (logicalPath params) (objs b) = Some d0"
    using assms(2) by blast
  obtain b1 where g: "getDHCPProperty params b = (Inr d0, b1)" and e1: "evolves b (objs b) b1"
    using getDHCPProperty_ok [OF assms(1) d0] by blast
  have nf: "nofault b1" using e1 assms(1) by (rule evolves_nofault)
  have o1: "objs b1 = objs b" using e1 by (rule evolves_fields)
  obtain b2 where s: "SetDHCPEnabled (service params) (logicalPath params) d b1 = (Inr (), b2)"
    and e2: "evolves b1 (map (setDhcpAt (logicalPath params) d) (objs b1)) b2"
    using SetDHCPEnabled_ok [OF nf, of "logicalPath params"] assms(2) o1 by metis
  have "setDHCPv6Property params d False b = (Inr (), b2)"
    using g s by (simp add: setDHCPv6Property_def bindM_Inr nextDhcpV6_def)
  moreover have "evolves b (map (setDhcpAt (logicalPath params) d) (objs b)) b2"
    using evolves_trans [OF e1 e2] by (simp add: o1)
  ultimately show ?thesis by blast
qed

lemma createVLAN_ok:
  assumes "nofault b"
  shows "\<exists>b'. createVLAN e params vlan b =
           (Inr (if vlan = 0 then params
                 else params\<lparr>logicalPath :=
                        vlanPath b (PATH_ROOT e) (ifname params) (ucast vlan)\<rparr>), b')
     \<and> evolves b (objs b @ (if vlan = 0 then []
                            else [vlanObj b (service params) (PATH_ROOT e) (ifname params)
                                    (ucast vlan)])) b'"
proof (cases "vlan = 0")
  case True
  then show ?thesis by (simp add: createVLAN_def returnM_def evolves_refl)
next
  case False
  obtain b1 where c: "CreateVLAN (service params) (PATH_ROOT e) (ifname params) (ucast vlan) b
        = (Inr (vlanPath b (PATH_ROOT e) (ifname params) (ucast vlan)), b1)"
    and e1: "evolves b (objs b @ [vlanObj b (service params) (PATH_ROOT e) (ifname params)
                                    (ucast vlan)]) b1"
    using CreateVLAN_ok [OF assms] unfolding vlanObj_def by blast
  show ?thesis using False c e1 by (simp add: createVLAN_def bindM_Inr returnM_def)
qed

lemma deconfigureObjs_ok:
  assumes "nofault b" "ifname params \<noteq> []"
  shows "\<exists>b'. deconfigureObjs params (toTree L) b =
           (Inr (if \<exists>x \<in> set L. contains (opath x) (ifname params)
                                  \<and> opath x = logicalPath params
                 then params\<lparr>logicalPath := ifPath params\<rparr> else params), b')
     \<and> evolves b
          (filter (\<lambda>ob. \<not> (deletable ob
                     \<and> (\<exists>x \<in> set L. contains (opath x) (ifname params) \<and> opath x = opath ob)))
             (objs b)) b'"
  using assms
proof (induction L arbitrary: params b)
  case Nil
  then show ?case by (simp add: toTree_def returnM_def evolves_refl)
next
  case (Cons x L)
  show ?case
  proof (cases "contains (opath x) (ifname params)")
    case False
    have "deconfigureObjs params (toTree (x # L)) b = deconfigureObjs params (toTree L) b"
      using False by (simp add: toTree_def)
    moreover have "(\<exists>y \<in> set (x # L). contains (opath y) (ifname params) \<and> opath y = q)
                   \<longleftrightarrow> (\<exists>y \<in> set L. contains (opath y) (ifname params) \<and> opath y = q)" for q
      using False by auto
    ultimately show ?thesis using Cons.IH [OF Cons.prems] by simp
  next
    case True
    define p where "p = opath x"
    have pne: "p \<noteq> []" unfolding p_def using True Cons.prems(2) by (rule contains_nonempty)
    obtain b1 where d: "deleteObjectIfExists (oservice x) p b = (Inr (), b1)"
      and e1: "evolves b (filter (\<lambda>ob. \<not> (opath ob = p \<and> deletable ob)) (objs b)) b1"
      using deleteObjectIfExists_ok [OF Cons.prems(1) pne] by blast
    have nf: "nofault b1" using e1 Cons.prems(1) by (rule evolves_nofault)
    have o1: "objs b1 = filter (\<lambda>ob. \<not> (opath ob = p \<and> deletable ob)) (objs b)"
      using e1 by (rule evolves_fields)
    define params' where
      "params' = (if p = logicalPath params then params\<lparr>logicalPath := ifPath params\<rparr>
                  else params)"
    have nm: "ifname params' = ifname params" by (simp add: params'_def)
    have ne': "ifname params' \<noteq> []" using Cons.prems(2) nm by simp
    obtain b2 where r: "deconfigureObjs params' (toTree L) b1 =
           (Inr (if \<exists>y \<in> set L. contains (opath y) (ifname params')
                                  \<and> opath y = logicalPath params'
                 then params'\<lparr>logicalPath := ifPath params'\<rparr> else params'), b2)"
      and e2: "evolves b1
          (filter (\<lambda>ob. \<not> (deletable ob
                     \<and> (\<exists>y \<in> set L. contains (opath y) (ifname params') \<and> opath y = opath ob)))
             (objs b1)) b2"
      using Cons.IH [OF nf ne'] by blast
    have run: "deconfigureObjs params (toTree (x # L)) b = deconfigureObjs params' (toTree L) b1"
      using True d
      by (simp add: toTree_def p_def [symmetric] params'_def bindM_Inr returnM_def)
    have res: "(if \<exists>y \<in> set L. contains (opath y) (ifname params')
                                  \<and> opath y = logicalPath params'
                then params'\<lparr>logicalPath := ifPath params'\<rparr> else params')
             = (if \<exists>y \<in> set (x # L). contains (opath y) (ifname params)
                                  \<and> opath y = logicalPath params
                then params\<lparr>logicalPath := ifPath params\<rparr> else params)"
      using True by (auto simp add: params'_def p_def)
    have os: "filter (\<lambda>ob. \<not> (deletable ob
                     \<and> (\<exists>y \<in> set L. contains (opath y) (ifname params') \<and> opath y = opath ob)))
                (objs b1)
            = filter (\<lambda>ob. \<not> (deletable ob
                     \<and> (\<exists>y \<in> set (x # L). contains (opath y) (ifname params)
                                            \<and> opath y = opath ob)))
                (objs b)"
      unfolding o1 nm using True by (auto simp add: p_def intro!: filter_cong)
    have fin: "deconfigureObjs params (toTree (x # L)) b =
           (Inr (if \<exists>y \<in> set (x # L). contains (opath y) (ifname params)
                                  \<and> opath y = logicalPath params
                 then params\<lparr>logicalPath := ifPath params\<rparr> else params), b2)"
      unfolding run r res ..
    have ev: "evolves b
          (filter (\<lambda>ob. \<not> (deletable ob
                     \<and> (\<exists>y \<in> set (x # L). contains (opath y) (ifname params)
                                            \<and> opath y = opath ob)))
             (objs b)) b2"
      using evolves_trans [OF e1 e2] unfolding os .
    from fin ev show ?thesis by (intro exI [of _ b2] conjI)
  qed
qed

lemma set_subTree:
  "set (subTree root is os) = {ob \<in> set os. underPath root (opath ob) \<and> serves is ob}"
  by (simp add: subTree_def)

lemma serves_delete: "serves [DELETE_INTERFACE] ob = deletable ob"
  by (simp add: serves_def deletable_def)

lemma resolvedOn_dhcpAt_logical:
  assumes "resolvedOn e b params"
  shows "dhcpAt (logicalPath params) (objs b) \<noteq> None"
  using assms unfolding resolvedOn_def dhcpAt_None_iff by fastforce

lemma resolvedOn_dhcpAt_survivors:
  assumes "resolvedOn e b params"
  shows "dhcpAt (ifPath params) (filter (survives root name) (objs b)) \<noteq> None"
proof -
  obtain ob d where ob: "ob \<in> set (objs b)" "opath ob = ifPath params" "okind ob = EthernetIf d"
    using assms unfolding resolvedOn_def by blast
  then have "survives root name ob" by (simp add: survives_def deletable_def)
  with ob show ?thesis unfolding dhcpAt_None_iff by fastforce
qed

lemma deconfigureChannel_ok:
  assumes nf: "nofault b" and res: "resolvedOn e b params"
  shows "\<exists>b'. deconfigureChannel e params b = (Inr (params\<lparr>logicalPath := ifPath params\<rparr>), b')
     \<and> evolves b (map (setDhcpAt (ifPath params) none)
                    (filter (survives (PATH_ROOT e) (ifname params)) (objs b))) b'"
proof -
  define L where "L = subTree (PATH_ROOT e) [DELETE_INTERFACE] (objs b)"
  define O1 where "O1 = filter (survives (PATH_ROOT e) (ifname params)) (objs b)"
  have name: "ifname params \<noteq> []" using res by (simp add: resolvedOn_def)
  obtain b1 where g: "GetSubTree (PATH_ROOT e) [DELETE_INTERFACE] b = (Inr L, b1)"
    and e1: "evolves b (objs b) b1"
    using GetSubTree_ok [OF nf] unfolding L_def by blast
  have nf1: "nofault b1" using e1 nf by (rule evolves_nofault)
  have o1: "objs b1 = objs b" using e1 by (rule evolves_fields)
  have inL: "x \<in> set L \<longleftrightarrow> x \<in> set (objs b) \<and> underPath (PATH_ROOT e) (opath x) \<and> deletable x"
    for x by (auto simp add: L_def set_subTree serves_delete)
  have cond: "params\<lparr>logicalPath := ifPath params\<rparr> =
      (if \<exists>x \<in> set L. contains (opath x) (ifname params) \<and> opath x = logicalPath params
       then params\<lparr>logicalPath := ifPath params\<rparr> else params)"
  proof (cases "logicalPath params = ifPath params")
    case True
    then show ?thesis by simp
  next
    case False
    then obtain ob i d where "ob \<in> set (objs b)" "opath ob = logicalPath params"
      "okind ob = VlanIf i d" "contains (logicalPath params) (ifname params)"
      "underPath (PATH_ROOT e) (logicalPath params)"
      using res unfolding resolvedOn_def by blast
    then have "ob \<in> set L \<and> contains (opath ob) (ifname params) \<and> opath ob = logicalPath params"
      by (simp add: inL deletable_def)
    then show ?thesis by auto
  qed
  have filt: "filter (\<lambda>ob. \<not> (deletable ob
                     \<and> (\<exists>x \<in> set L. contains (opath x) (ifname params) \<and> opath x = opath ob)))
                (objs b1) = O1"
    unfolding o1 O1_def
    by (rule filter_cong) (auto simp add: survives_def inL)
  obtain b2 where d: "deconfigureObjs params (toTree L) b1
                      = (Inr (params\<lparr>logicalPath := ifPath params\<rparr>), b2)"
    and e2: "evolves b1 O1 b2"
    using deconfigureObjs_ok [OF nf1 name, of L] unfolding filt cond [symmetric] by blast
  have nf2: "nofault b2" using e2 nf1 by (rule evolves_nofault)
  have o2: "objs b2 = O1" using e2 by (rule evolves_fields)
  have "dhcpAt (logicalPath (params\<lparr>logicalPath := ifPath params\<rparr>)) (objs b2) \<noteq> None"
    unfolding o2 O1_def using resolvedOn_dhcpAt_survivors [OF res] by simp
  from setDHCPv6Property_verbatim_ok [OF nf2 this, of none]
  obtain b3 where s: "setDHCPv6Property (params\<lparr>logicalPath := ifPath params\<rparr>) none False b2
                      = (Inr (), b3)"
    and e3: "evolves b2 (map (setDhcpAt (ifPath params) none) O1) b3"
    unfolding o2 by auto
  have "deconfigureChannel e params b = (Inr (params\<lparr>logicalPath := ifPath params\<rparr>), b3)"
    using g d s by (simp add: deconfigureChannel_def bindM_Inr returnM_def)
  moreover have "evolves b (map (setDhcpAt (ifPath params) none) O1) b3"
    using evolves_trans [OF evolves_trans [OF e1 e2] e3] .
  ultimately show ?thesis unfolding O1_def by blast
qed

lemma dhcpOf_withDhcp: "dhcpOf (withDhcp d k) = None \<longleftrightarrow> dhcpOf k = None"
  by (cases k) simp_all

lemma dhcpOf_withDhcp_eq:
  "dhcpOf (withDhcp d k) = (case dhcpOf k of None \<Rightarrow> None | Some d0 \<Rightarrow> Some d)"
  by (cases k) simp_all

lemma dhcpAt_map_setDhcpAt:
  "dhcpAt p (map (setDhcpAt q d) os) = None \<longleftrightarrow> dhcpAt p os = None"
  by (induction os) (auto simp add: setDhcpAt_def dhcpOf_withDhcp_eq split: option.splits)

lemma ObjectLookupCache_ok:
  assumes "nofault b"
  shows "\<exists>b'. ObjectLookupCache params i b = (Inr (subTree (logicalPath params) [i] (objs b)), b')
              \<and> evolves b (objs b) b'"
  using GetSubTree_ok [OF assms] by (simp add: ObjectLookupCache_def)

lemma findGatewayNeighbor_ok:
  assumes "nofault b"
  shows "\<exists>b'. findGatewayNeighbor fam params neighbors b =
           (Inr (case gateway b fam of None \<Rightarrow> None
                 | Some a \<Rightarrow> findStaticNeighbor a neighbors), b')
     \<and> evolves b (objs b) b'"
proof -
  obtain b1 where g: "GetGateway (service params) fam b = (Inr (gateway b fam), b1)"
    and e1: "evolves b (objs b) b1"
    using GetGateway_ok [OF assms] by blast
  show ?thesis using g e1
    by (cases "gateway b fam")
      (auto simp add: findGatewayNeighbor_def getGatewayProperty_def bindM_Inr returnM_def)
qed

lemma reconfigureVLAN_ok:
  assumes nf: "nofault b" and res: "resolvedOn e b params"
  shows "\<exists>b'. reconfigureVLAN e params vlan b
               = (Inr (params\<lparr>logicalPath := newLogicalPath e b params vlan\<rparr>), b')
     \<and> evolves b (swapped e b params vlan) b'"
proof -
  define l where "l = logicalPath params"
  define svc where "svc = service params"
  define l2 where "l2 = newLogicalPath e b params vlan"
  define ips where "ips = subTree l [INTF_IP] (objs b)"
  define neighbors where "neighbors = subTree l [INTF_NEIGHBOR] (objs b)"
  define ifaddr4 where "ifaddr4 = findIfAddr AF_INET 0 originsV4 ips"
  define ifaddrs6 where
    "ifaddrs6 = collectIfAddrs6 (unat (MAX_IPV6_STATIC_ADDRESSES e)) 0 ips"
  define n4 where "n4 = snapNeighbor b params AF_INET"
  define n6 where "n6 = snapNeighbor b params AF_INET6"
  define base where "base = map (setDhcpAt (ifPath params) none)
                              (filter (survives (PATH_ROOT e) (ifname params)) (objs b))"
  define vl where "vl = (if vlan = 0 then []
      else [vlanObj b svc (PATH_ROOT e) (ifname params) (ucast vlan)])"
  define params1 where "params1 = params\<lparr>logicalPath := ifPath params\<rparr>"
  define params2 where "params2 = params\<lparr>logicalPath := l2\<rparr>"
  obtain dhcp where dhcp: "dhcpAt l (objs b) = Some dhcp"
    using resolvedOn_dhcpAt_logical [OF res] unfolding l_def by blast
  have sd: "snapDhcp b params = dhcp" using dhcp by (simp add: snapDhcp_def l_def)

  obtain b1 where s1: "ObjectLookupCache params INTF_IP b = (Inr ips, b1)"
    and e1: "evolves b (objs b) b1"
    using ObjectLookupCache_ok [OF nf] unfolding ips_def l_def by blast
  have nf1: "nofault b1" using e1 nf by (rule evolves_nofault)
  have o1: "objs b1 = objs b" using e1 by (rule evolves_fields)

  obtain b2 where s2: "getDHCPProperty params b1 = (Inr dhcp, b2)"
    and e2': "evolves b1 (objs b1) b2"
    using getDHCPProperty_ok [OF nf1, of params dhcp] dhcp unfolding o1 l_def by blast
  have e2: "evolves b (objs b) b2" using evolves_trans [OF e1 e2'] unfolding o1 .
  have nf2: "nofault b2" using e2 nf by (rule evolves_nofault)
  have o2: "objs b2 = objs b" using e2 by (rule evolves_fields)

  obtain b3 where s3: "ObjectLookupCache params INTF_NEIGHBOR b2 = (Inr neighbors, b3)"
    and e3': "evolves b2 (objs b2) b3"
    using ObjectLookupCache_ok [OF nf2] unfolding neighbors_def l_def o2 by blast
  have e3: "evolves b (objs b) b3" using evolves_trans [OF e2 e3'] unfolding o2 .
  have nf3: "nofault b3" using e3 nf by (rule evolves_nofault)
  have o3: "objs b3 = objs b" using e3 by (rule evolves_fields)
  have g3: "gateway b3 = gateway b" using e3 by (rule evolves_fields)

  obtain b4 where s4: "findGatewayNeighbor AF_INET params neighbors b3 = (Inr n4, b4)"
    and e4': "evolves b3 (objs b3) b4"
    using findGatewayNeighbor_ok [OF nf3, of AF_INET params neighbors]
    unfolding n4_def snapNeighbor_def neighbors_def l_def g3 by blast
  have e4: "evolves b (objs b) b4" using evolves_trans [OF e3 e4'] unfolding o3 .
  have nf4: "nofault b4" using e4 nf by (rule evolves_nofault)
  have o4: "objs b4 = objs b" using e4 by (rule evolves_fields)
  have g4: "gateway b4 = gateway b" using e4 by (rule evolves_fields)

  obtain b5 where s5: "findGatewayNeighbor AF_INET6 params neighbors b4 = (Inr n6, b5)"
    and e5': "evolves b4 (objs b4) b5"
    using findGatewayNeighbor_ok [OF nf4, of AF_INET6 params neighbors]
    unfolding n6_def snapNeighbor_def neighbors_def l_def g4 by blast
  have e5: "evolves b (objs b) b5" using evolves_trans [OF e4 e5'] unfolding o4 .
  have nf5: "nofault b5" using e5 nf by (rule evolves_nofault)
  have o5: "objs b5 = objs b" using e5 by (rule evolves_fields)
  have res5: "resolvedOn e b5 params" using res unfolding resolvedOn_def o5 .

  obtain b6 where s6: "deconfigureChannel e params b5 = (Inr params1, b6)"
    and e6': "evolves b5 base b6"
    using deconfigureChannel_ok [OF nf5 res5] unfolding params1_def base_def o5 by blast
  have e6: "evolves b base b6" using evolves_trans [OF e5 e6'] .
  have nf6: "nofault b6" using e6 nf by (rule evolves_nofault)
  have o6: "objs b6 = base" using e6 by (rule evolves_fields)
  have v6: "vlanName b6 = vlanName b" using e6 by (rule evolves_fields)
  have vp6: "vlanPath b6 = vlanPath b" by (intro ext) (simp add: vlanPath_def v6)
  have vo6: "vlanObj b6 = vlanObj b" by (intro ext) (simp add: vlanObj_def vp6)

  have p2: "(if vlan = 0 then params1
             else params1\<lparr>logicalPath :=
                    vlanPath b6 (PATH_ROOT e) (ifname params) (ucast vlan)\<rparr>) = params2"
    by (simp add: params1_def params2_def l2_def newLogicalPath_def vp6)
  have sp1: "service params1 = svc" "ifname params1 = ifname params"
    by (simp_all add: params1_def svc_def)
  have "\<exists>b7. createVLAN e params1 vlan b6 = (Inr params2, b7) \<and> evolves b6 (base @ vl) b7"
    using createVLAN_ok [OF nf6, of e params1 vlan] unfolding sp1 p2 o6 vo6 vl_def .
  then obtain b7 where s7: "createVLAN e params1 vlan b6 = (Inr params2, b7)"
    and e7': "evolves b6 (base @ vl) b7" by blast
  have e7: "evolves b (base @ vl) b7" using evolves_trans [OF e6 e7'] .
  have nf7: "nofault b7" using e7 nf by (rule evolves_nofault)
  have o7: "objs b7 = base @ vl" using e7 by (rule evolves_fields)
  have lp2: "logicalPath params2 = l2" by (simp add: params2_def)
  have sv2: "service params2 = svc" by (simp add: params2_def svc_def)

  have d7: "dhcpAt l2 (base @ vl) \<noteq> None"
  proof (cases "vlan = 0")
    case True
    have "dhcpAt (ifPath params) base \<noteq> None"
      unfolding base_def dhcpAt_map_setDhcpAt by (rule resolvedOn_dhcpAt_survivors [OF res])
    then show ?thesis using True by (simp add: l2_def newLogicalPath_def vl_def)
  next
    case False
    then show ?thesis
      by (auto simp add: dhcpAt_None_iff l2_def newLogicalPath_def vl_def vlanObj_def)
  qed
  obtain b8 where s8: "setDHCPv6Property params2 dhcp False b7 = (Inr (), b8)"
    and e8': "evolves b7 (map (setDhcpAt l2 dhcp) (base @ vl)) b8"
    using setDHCPv6Property_verbatim_ok [OF nf7, of params2 dhcp] d7 unfolding lp2 o7 by blast
  define O8 where "O8 = map (setDhcpAt l2 dhcp) (base @ vl)"
  have e8: "evolves b O8 b8" using evolves_trans [OF e7 e8'] unfolding O8_def .
  have nf8: "nofault b8" using e8 nf by (rule evolves_nofault)
  have o8: "objs b8 = O8" using e8 by (rule evolves_fields)
  have d8: "dhcpAt l2 O8 \<noteq> None" unfolding O8_def dhcpAt_map_setDhcpAt by (rule d7)
  have i8: "ipObj b8 = ipObj b"
    by (intro ext) (simp add: ipObj_def evolves_fields [OF e8])

  obtain b9 where s9: "(case ifaddr4 of None \<Rightarrow> returnM ()
                        | Some a \<Rightarrow> createIfAddr params2 (address a) (prefixLen a)) b8
                       = (Inr (), b9)"
    and e9': "evolves b8 (O8 @ map (ipObj b svc l2) (optList ifaddr4)) b9"
  proof (cases ifaddr4)
    case None
    then show ?thesis using that [of b8] by (simp add: returnM_def evolves_refl o8 [symmetric])
  next
    case (Some a)
    then show ?thesis
      using createIfAddr_ok [OF nf8, of params2 a] d8 that unfolding lp2 sv2 o8 i8 by auto
  qed
  define O9 where "O9 = O8 @ map (ipObj b svc l2) (optList ifaddr4)"
  have e9: "evolves b O9 b9" using evolves_trans [OF e8 e9'] unfolding O9_def .
  have nf9: "nofault b9" using e9 nf by (rule evolves_nofault)
  have o9: "objs b9 = O9" using e9 by (rule evolves_fields)
  have d9: "dhcpAt l2 O9 \<noteq> None" unfolding O9_def using d8 by (rule dhcpAt_append)
  have i9: "ipObj b9 = ipObj b"
    by (intro ext) (simp add: ipObj_def evolves_fields [OF e9])

  obtain b10 where s10: "createIfAddrs params2 ifaddrs6 b9 = (Inr (), b10)"
    and e10': "evolves b9 (O9 @ map (ipObj b svc l2) ifaddrs6) b10"
    using createIfAddrs_ok [OF nf9, of params2 ifaddrs6] d9 unfolding lp2 sv2 o9 i9 by blast
  define O10 where "O10 = O9 @ map (ipObj b svc l2) ifaddrs6"
  have e10: "evolves b O10 b10" using evolves_trans [OF e9 e10'] unfolding O10_def .
  have nf10: "nofault b10" using e10 nf by (rule evolves_nofault)
  have o10: "objs b10 = O10" using e10 by (rule evolves_fields)
  have d10: "dhcpAt l2 O10 \<noteq> None" unfolding O10_def using d9 by (rule dhcpAt_append)
  have n10: "neighObj b10 = neighObj b"
    by (intro ext) (simp add: neighObj_def evolves_fields [OF e10])

  obtain b11 where s11: "restoreNeighbor params2 n4 b10 = (Inr (), b11)"
    and e11': "evolves b10 (O10 @ map (neighObj b svc l2) (optList n4)) b11"
    using restoreNeighbor_ok [OF nf10, of params2 n4] d10 unfolding lp2 sv2 o10 n10 by blast
  define O11 where "O11 = O10 @ map (neighObj b svc l2) (optList n4)"
  have e11: "evolves b O11 b11" using evolves_trans [OF e10 e11'] unfolding O11_def .
  have nf11: "nofault b11" using e11 nf by (rule evolves_nofault)
  have o11: "objs b11 = O11" using e11 by (rule evolves_fields)
  have d11: "dhcpAt l2 O11 \<noteq> None" unfolding O11_def using d10 by (rule dhcpAt_append)
  have n11: "neighObj b11 = neighObj b"
    by (intro ext) (simp add: neighObj_def evolves_fields [OF e11])

  obtain b12 where s12: "restoreNeighbor params2 n6 b11 = (Inr (), b12)"
    and e12': "evolves b11 (O11 @ map (neighObj b svc l2) (optList n6)) b12"
    using restoreNeighbor_ok [OF nf11, of params2 n6] d11 unfolding lp2 sv2 o11 n11 by blast
  have e12: "evolves b (O11 @ map (neighObj b svc l2) (optList n6)) b12"
    using evolves_trans [OF e11 e12'] .

  have fin: "O11 @ map (neighObj b svc l2) (optList n6) = swapped e b params vlan"
    by (simp add: swapped_def Let_def O11_def O10_def O9_def O8_def base_def vl_def l2_def
        svc_def sd snapAddrs_def ips_def l_def ifaddr4_def ifaddrs6_def n4_def n6_def)
  have "reconfigureVLAN e params vlan b = (Inr params2, b12)"
    unfolding reconfigureVLAN_def
    by (simp add: bindM_def returnM_def ifaddr4_def [symmetric] ifaddrs6_def [symmetric]
        s1 s2 s3 s4 s5 s6 s7 s8 s9 s10 s11 s12)
  moreover have "evolves b (swapped e b params vlan) b12" using e12 unfolding fin .
  ultimately show ?thesis unfolding params2_def l2_def by blast
qed

lemma isEth_implements:
  "isEth ob \<longleftrightarrow> INTF_ETHERNET \<in> set (implements (okind ob))
                 \<and> INTF_VLAN \<notin> set (implements (okind ob))"
  by (cases "okind ob") (simp_all add: isEth_def)

lemma isVlan_implements: "isVlan ob \<longleftrightarrow> INTF_VLAN \<in> set (implements (okind ob))"
  by (cases "okind ob") (simp_all add: isVlan_def)

lemma firstPath_Nil [simp]: "firstPath Q [] = []"
  by (simp add: firstPath_def)

lemma firstPath_Cons:
  "firstPath Q (ob # L) = (if Q ob then opath ob else firstPath Q L)"
  by (simp add: firstPath_def)

lemma firstPath_mem:
  "firstPath Q L \<noteq> [] \<Longrightarrow> \<exists>ob \<in> set L. Q ob \<and> opath ob = firstPath Q L"
  by (induction L) (auto simp add: firstPath_Cons split: if_splits)

lemma firstPath_conv:
  "firstPath Q L = (case map opath (filter Q L) of [] \<Rightarrow> [] | p # ps \<Rightarrow> p)"
  by (simp add: firstPath_def split: list.splits)

lemma resolveObjs_paths:
  assumes "name \<noteq> []"
  shows "ifPath (resolveObjs name (toTree L) P) =
           (if ifPath P \<noteq> [] then ifPath P
            else firstPath (\<lambda>ob. contains (opath ob) name \<and> isEth ob) L)
       \<and> logicalPath (resolveObjs name (toTree L) P) =
           (if logicalPath P \<noteq> [] then logicalPath P
            else firstPath (\<lambda>ob. contains (opath ob) name \<and> isVlan ob) L)"
proof (induction L arbitrary: P)
  case Nil
  then show ?case by (simp add: toTree_def)
next
  case (Cons ob L)
  show ?case
  proof (cases "contains (opath ob) name")
    case False
    then show ?thesis using Cons.IH [of P] by (simp add: toTree_def firstPath_Cons)
  next
    case True
    then have ne: "opath ob \<noteq> []" using assms by (rule contains_nonempty)
    define P' where "P' = resolveImpls (opath ob) [(oservice ob, implements (okind ob))] P"
    have i: "ifPath P' = (if ifPath P = [] \<and> isEth ob then opath ob else ifPath P)"
      by (auto simp add: P'_def Let_def isEth_implements)
    have lg: "logicalPath P' = (if logicalPath P = [] \<and> isVlan ob then opath ob
                               else logicalPath P)"
      by (auto simp add: P'_def Let_def isVlan_implements)
    have "resolveObjs name (toTree (ob # L)) P = resolveObjs name (toTree L) P'"
      using True by (simp add: toTree_def P'_def)
    then show ?thesis using Cons.IH [of P'] True ne
      by (simp add: i lg firstPath_Cons)
  qed
qed

lemma maybeGetChannelParams_Some:
  assumes "maybeGetChannelParams e channel b = (Inr (Some params), b')"
  defines "L \<equiv> ifaces e (objs b)"
  defines "name \<equiv> getChannelName e channel"
  shows "name \<noteq> []" "ifname params = name" "chId params = channel"
    "ifPath params = firstPath (\<lambda>ob. contains (opath ob) name \<and> isEth ob) L"
    "ifPath params \<noteq> []"
    "logicalPath params =
       (if firstPath (\<lambda>ob. contains (opath ob) name \<and> isVlan ob) L = [] then ifPath params
        else firstPath (\<lambda>ob. contains (opath ob) name \<and> isVlan ob) L)"
proof -
  show ne: "name \<noteq> []"
    using assms(1) unfolding name_def
    by (auto simp add: maybeGetChannelParams_def returnM_def)
  define P where "P = resolveObjs name (toTree L) emptyParams"
  have g: "fault b (CallGetSubTree (PATH_ROOT e) [INTF_VLAN, INTF_ETHERNET]) = None"
    using assms(1) ne unfolding name_def
    by (auto simp add: maybeGetChannelParams_def GetSubTree_def bindM_def busCall_def Let_def
        split: option.splits)
  have r: "(if ifPath P = [] then None
            else Some ((if logicalPath P = [] then P\<lparr>logicalPath := ifPath P\<rparr> else P)
                       \<lparr>chId := channel, ifname := name\<rparr>)) = Some params"
    using assms(1) ne g unfolding name_def P_def L_def ifaces_def
    by (auto simp add: maybeGetChannelParams_def GetSubTree_def bindM_def busCall_def Let_def
        returnM_def split: if_splits)
  have paths: "ifPath P = firstPath (\<lambda>ob. contains (opath ob) name \<and> isEth ob) L"
    "logicalPath P = firstPath (\<lambda>ob. contains (opath ob) name \<and> isVlan ob) L"
    using resolveObjs_paths [OF ne, of L emptyParams] unfolding P_def
    by (simp_all add: emptyParams_def)
  from r have nz: "ifPath P \<noteq> []" by (auto split: if_splits)
  from r nz have p: "params = (if logicalPath P = [] then P\<lparr>logicalPath := ifPath P\<rparr> else P)
                       \<lparr>chId := channel, ifname := name\<rparr>" by simp
  show "ifname params = name" "chId params = channel" by (simp_all add: p)
  show ip: "ifPath params = firstPath (\<lambda>ob. contains (opath ob) name \<and> isEth ob) L"
    using paths by (simp add: p)
  show "ifPath params \<noteq> []" using nz by (simp add: p)
  show "logicalPath params =
       (if firstPath (\<lambda>ob. contains (opath ob) name \<and> isVlan ob) L = [] then ifPath params
        else firstPath (\<lambda>ob. contains (opath ob) name \<and> isVlan ob) L)"
    using paths by (simp add: p)
qed

lemma maybeGetChannelParams_ok:
  assumes "nofault b" "getChannelName e channel \<noteq> []"
    and "firstPath (\<lambda>ob. contains (opath ob) (getChannelName e channel) \<and> isEth ob)
           (ifaces e (objs b)) \<noteq> []"
  shows "\<exists>params b'. maybeGetChannelParams e channel b = (Inr (Some params), b')
            \<and> evolves b (objs b) b'"
proof -
  obtain b1 where g: "GetSubTree (PATH_ROOT e) [INTF_VLAN, INTF_ETHERNET] b
                      = (Inr (ifaces e (objs b)), b1)"
    and e1: "evolves b (objs b) b1"
    using GetSubTree_ok [OF assms(1)] unfolding ifaces_def by blast
  have "ifPath (resolveObjs (getChannelName e channel) (toTree (ifaces e (objs b))) emptyParams)
        \<noteq> []"
    using resolveObjs_paths [OF assms(2), of "ifaces e (objs b)" emptyParams] assms(3)
    by (simp add: emptyParams_def)
  then show ?thesis using g e1 assms(2)
    by (auto simp add: maybeGetChannelParams_def bindM_Inr Let_def returnM_def)
qed

lemma resolvedOn_resolution:
  assumes "maybeGetChannelParams e channel b = (Inr (Some params), b')"
  shows "resolvedOn e b params"
proof -
  define name where "name = getChannelName e channel"
  define L where "L = ifaces e (objs b)"
  note f = maybeGetChannelParams_Some [OF assms, folded name_def L_def]
  have inL: "ob \<in> set L \<Longrightarrow> ob \<in> set (objs b) \<and> underPath (PATH_ROOT e) (opath ob)" for ob
    by (simp add: L_def ifaces_def set_subTree)
  obtain ob where ob: "ob \<in> set L" "contains (opath ob) name" "isEth ob"
    "opath ob = ifPath params"
    using firstPath_mem [of "\<lambda>ob. contains (opath ob) name \<and> isEth ob" L] f(4,5) by auto
  have eth: "\<exists>x \<in> set (objs b). opath x = ifPath params \<and> (\<exists>d. okind x = EthernetIf d)"
    using ob inL [OF ob(1)] by (auto simp add: isEth_def)
  have base: "ifname params \<noteq> []" "contains (ifPath params) (ifname params)"
    "underPath (PATH_ROOT e) (ifPath params)"
    using f(1,2) ob inL [OF ob(1)] by auto
  show ?thesis
  proof (cases "firstPath (\<lambda>ob. contains (opath ob) name \<and> isVlan ob) L = []")
    case True
    then have "logicalPath params = ifPath params" using f(6) by simp
    with base eth show ?thesis by (simp add: resolvedOn_def)
  next
    case False
    then obtain v where v: "v \<in> set L" "contains (opath v) name" "isVlan v"
      "opath v = logicalPath params"
      using firstPath_mem [of "\<lambda>ob. contains (opath ob) name \<and> isVlan ob" L] f(6) by auto
    then have "contains (logicalPath params) (ifname params)"
      "underPath (PATH_ROOT e) (logicalPath params)"
      "\<exists>x \<in> set (objs b). opath x = logicalPath params \<and> (\<exists>i d. okind x = VlanIf i d)"
      using inL [OF v(1)] f(2) by (auto simp add: isVlan_def)
    with base eth show ?thesis by (simp add: resolvedOn_def)
  qed
qed

lemma contains_Nil: "contains y []"
  by (cases y) simp_all

lemma contains_append_right: "contains x n \<Longrightarrow> contains (x @ y) n"
proof (induction x)
  case Nil
  then show ?case by (simp add: contains_Nil)
next
  case (Cons c cs)
  show ?case
  proof (cases "prefix n (c # cs)")
    case True
    then have "prefix n ((c # cs) @ y)" by (rule prefix_prefix)
    then show ?thesis by simp
  next
    case False
    then have "contains cs n" using Cons.prems by simp
    then show ?thesis using Cons.IH by simp
  qed
qed

lemma contains_append_left: "contains y n \<Longrightarrow> contains (x @ y) n"
  by (induction x) auto

lemma contains_self: "contains n n"
  by (cases n) simp_all



lemma under_append: "z \<noteq> [] \<Longrightarrow> underPath l (l @ ''/'' @ z)"
  unfolding underPath_def by (simp add: strict_prefix_def)

lemma vlanPath_under: "name \<noteq> [] \<Longrightarrow> underPath root (vlanPath b root name i)"
  unfolding vlanPath_def by (rule under_append) simp

lemma vlanPath_contains: "contains (vlanPath b root name i) name"
  unfolding vlanPath_def
  by (intro contains_append_left contains_append_right contains_self)

lemma insort_key_map_same:
  assumes "\<forall>y. f (g y) = f y"
  shows "insort_key f (g x) (map g xs) = map g (insort_key f x xs)"
  using assms by (induction xs) simp_all

lemma sort_key_map_same:
  assumes "\<forall>y. f (g y) = f y"
  shows "sort_key f (map g xs) = map g (sort_key f xs)"
  using assms by (induction xs) (simp_all add: insort_key_map_same)

lemma opath_setDhcpAt [simp]: "opath (setDhcpAt q d ob) = opath ob"
  by (simp add: setDhcpAt_def)

lemma implements_withDhcp [simp]: "implements (withDhcp d k) = implements k"
  by (cases k) simp_all

lemma implements_setDhcpAt [simp]:
  "implements (okind (setDhcpAt q d ob)) = implements (okind ob)"
  by (simp add: setDhcpAt_def)

lemma isEth_setDhcpAt [simp]: "isEth (setDhcpAt q d ob) = isEth ob"
  by (simp add: isEth_implements)

lemma isVlan_setDhcpAt [simp]: "isVlan (setDhcpAt q d ob) = isVlan ob"
  by (simp add: isVlan_implements)

lemma serves_setDhcpAt [simp]: "serves is (setDhcpAt q d ob) = serves is ob"
  by (simp add: serves_def)

lemma deletable_setDhcpAt [simp]: "deletable (setDhcpAt q d ob) = deletable ob"
  by (simp add: deletable_def)

lemma filter_map_setDhcpAt:
  assumes "\<And>ob. Q (setDhcpAt q d ob) = Q ob"
  shows "filter Q (map (setDhcpAt q d) xs) = map (setDhcpAt q d) (filter Q xs)"
  by (induction xs) (simp_all add: assms)

lemma filter_subTree:
  "filter Q (subTree root is os)
   = sort_key opath (filter (\<lambda>ob. Q ob \<and> underPath root (opath ob) \<and> serves is ob) os)"
  unfolding subTree_def filter_sort filter_filter by (rule arg_cong) (auto intro: filter_cong)

lemma serves_ifaces: "serves [INTF_VLAN, INTF_ETHERNET] ob \<longleftrightarrow> isEth ob \<or> isVlan ob"
  by (cases "okind ob") (simp_all add: serves_def isEth_def isVlan_def)

lemma isEth_survives: "isEth ob \<Longrightarrow> survives root name ob"
  by (auto simp add: isEth_def survives_def deletable_def)

lemma isEth_kinds [simp]:
  "\<not> isEth (ipObj b svc l a)" "\<not> isEth (neighObj b svc l n)"
  "\<not> isEth (vlanObj b svc root name i)"
  by (simp_all add: isEth_def ipObj_def neighObj_def vlanObj_def)

lemma isVlan_kinds [simp]:
  "\<not> isVlan (ipObj b svc l a)" "\<not> isVlan (neighObj b svc l n)"
  "isVlan (vlanObj b svc root name i)"
  by (simp_all add: isVlan_def ipObj_def neighObj_def vlanObj_def)

lemma isVlan_not_survives:
  "isVlan ob \<Longrightarrow> underPath root (opath ob) \<Longrightarrow> contains (opath ob) name
   \<Longrightarrow> \<not> survives root name ob"
  by (auto simp add: isVlan_def survives_def deletable_def)

text \<open>The parts of the object list after the swap.\<close>

lemma swapped_parts:
  "swapped e b params vlan =
     map (setDhcpAt (newLogicalPath e b params vlan) (snapDhcp b params))
       (swapBase e b params @ swapVlan e b params vlan)
     @ swapRestored e b params vlan"
  by (simp add: swapped_def Let_def swapBase_def swapVlan_def swapRestored_def)

lemma filter_swapRestored:
  assumes "\<And>ob. Q ob \<Longrightarrow> isEth ob \<or> isVlan ob"
  shows "filter Q (swapRestored e b params vlan) = []"
  unfolding swapRestored_def by (auto simp add: filter_empty_conv dest!: assms)

lemma filter_swapped:
  assumes inv: "\<And>q d ob. Q (setDhcpAt q d ob) = Q ob"
    and ifc: "\<And>ob. Q ob \<Longrightarrow> isEth ob \<or> isVlan ob"
  shows "filter Q (swapped e b params vlan) =
     map (setDhcpAt (newLogicalPath e b params vlan) (snapDhcp b params))
       (map (setDhcpAt (ifPath params) none)
          (filter (\<lambda>ob. survives (PATH_ROOT e) (ifname params) ob \<and> Q ob) (objs b))
        @ filter Q (swapVlan e b params vlan))"
proof -
  have r: "filter Q (swapRestored e b params vlan) = []"
    by (rule filter_swapRestored) (rule ifc)
  have "filter Q (swapped e b params vlan)
        = filter Q (map (setDhcpAt (newLogicalPath e b params vlan) (snapDhcp b params))
            (swapBase e b params @ swapVlan e b params vlan))"
    by (simp add: swapped_parts r)
  also have "\<dots> = map (setDhcpAt (newLogicalPath e b params vlan) (snapDhcp b params))
            (filter Q (swapBase e b params @ swapVlan e b params vlan))"
    by (rule filter_map_setDhcpAt) (rule inv)
  also have "filter Q (swapBase e b params @ swapVlan e b params vlan)
        = map (setDhcpAt (ifPath params) none)
            (filter (\<lambda>ob. survives (PATH_ROOT e) (ifname params) ob \<and> Q ob) (objs b))
          @ filter Q (swapVlan e b params vlan)"
    unfolding filter_append swapBase_def
    by (simp add: filter_map_setDhcpAt [of Q, OF inv] conj_commute)
  finally show ?thesis .
qed

text \<open>The physical interfaces in the enumeration after the swap.\<close>

lemma swapped_eth:
  "map opath (filter (\<lambda>ob. contains (opath ob) name \<and> isEth ob)
                (ifaces e (swapped e b params vlan)))
   = map opath (filter (\<lambda>ob. contains (opath ob) name \<and> isEth ob) (ifaces e (objs b)))"
proof -
  define Q where "Q = (\<lambda>ob. (contains (opath ob) name \<and> isEth ob)
      \<and> underPath (PATH_ROOT e) (opath ob) \<and> serves [INTF_VLAN, INTF_ETHERNET] ob)"
  have Qs: "Q (setDhcpAt q d ob) = Q ob" for q d ob by (simp add: Q_def)
  have Qe: "Q ob \<Longrightarrow> isEth ob" for ob by (simp add: Q_def)
  have Qi: "Q ob \<Longrightarrow> isEth ob \<or> isVlan ob" for ob by (simp add: Q_def)
  have surv: "filter (\<lambda>ob. survives (PATH_ROOT e) (ifname params) ob \<and> Q ob) (objs b)
              = filter Q (objs b)"
    by (rule filter_cong) (auto dest: Qe intro: isEth_survives)
  have vl: "filter Q (swapVlan e b params vlan) = []"
    by (auto simp add: swapVlan_def filter_empty_conv dest!: Qe)
  have "filter Q (swapped e b params vlan)
        = map (setDhcpAt (newLogicalPath e b params vlan) (snapDhcp b params))
            (map (setDhcpAt (ifPath params) none) (filter Q (objs b)))"
    using filter_swapped [of Q e b params vlan, OF Qs Qi] surv vl by simp
  then show ?thesis
    unfolding ifaces_def filter_subTree Q_def [symmetric]
    by (simp add: sort_key_map_same)
qed

text \<open>The VLAN interfaces of the channel in the enumeration after the swap.\<close>

lemma swapped_vlan:
  assumes name: "ifname params \<noteq> []"
  shows "map opath (filter (\<lambda>ob. contains (opath ob) (ifname params) \<and> isVlan ob)
                (ifaces e (swapped e b params vlan)))
   = (if vlan = 0 then []
      else [vlanPath b (PATH_ROOT e) (ifname params) (ucast vlan)])"
proof -
  define Q where "Q = (\<lambda>ob. (contains (opath ob) (ifname params) \<and> isVlan ob)
      \<and> underPath (PATH_ROOT e) (opath ob) \<and> serves [INTF_VLAN, INTF_ETHERNET] ob)"
  have Qs: "Q (setDhcpAt q d ob) = Q ob" for q d ob by (simp add: Q_def)
  have Qi: "Q ob \<Longrightarrow> isEth ob \<or> isVlan ob" for ob by (simp add: Q_def)
  have surv: "filter (\<lambda>ob. survives (PATH_ROOT e) (ifname params) ob \<and> Q ob) (objs b) = []"
    by (auto simp add: filter_empty_conv Q_def dest: isVlan_not_survives)
  have Qv: "Q (vlanObj b (service params) (PATH_ROOT e) (ifname params) i)" for i
    using name
    by (simp add: Q_def serves_ifaces vlanPath_contains vlanPath_under vlanObj_def isVlan_def)
  have vl: "filter Q (swapVlan e b params vlan) = swapVlan e b params vlan"
    by (simp add: swapVlan_def Qv)
  have "filter Q (swapped e b params vlan)
        = map (setDhcpAt (newLogicalPath e b params vlan) (snapDhcp b params))
            (swapVlan e b params vlan)"
    using filter_swapped [of Q e b params vlan, OF Qs Qi] surv vl by simp
  then show ?thesis
    unfolding ifaces_def filter_subTree Q_def [symmetric]
    by (simp add: swapVlan_def vlanObj_def)
qed

lemma evolves_same:
  assumes "evolves b (objs b) b1"
  shows "swapped e b1 params vlan = swapped e b params vlan"
    "newLogicalPath e b1 params vlan = newLogicalPath e b params vlan"
proof -
  note f = evolves_fields [OF assms]
  have ip: "ipObj b1 = ipObj b" by (intro ext) (simp add: ipObj_def f)
  have ne: "neighObj b1 = neighObj b" by (intro ext) (simp add: neighObj_def f)
  have vl: "vlanObj b1 = vlanObj b" by (intro ext) (simp add: vlanObj_def vlanPath_def f)
  have sn: "snapNeighbor b1 = snapNeighbor b"
    by (intro ext) (simp only: snapNeighbor_def f)
  have sa: "snapAddrs e b1 = snapAddrs e b" by (intro ext) (simp only: snapAddrs_def f)
  have sd: "snapDhcp b1 = snapDhcp b" by (intro ext) (simp only: snapDhcp_def f)
  show nl: "newLogicalPath e b1 params vlan = newLogicalPath e b params vlan"
    by (simp add: newLogicalPath_def vlanPath_def f)
  show "swapped e b1 params vlan = swapped e b params vlan"
    unfolding swapped_def nl ip ne vl sn sa sd f(1) ..
qed

lemma resolvedOn_same:
  assumes "evolves b (objs b) b1" "resolvedOn e b params"
  shows "resolvedOn e b1 params"
  using assms(2) unfolding resolvedOn_def evolves_fields(1) [OF assms(1)] .

lemma resolve_run:
  assumes nf: "nofault b"
    and res: "fst (maybeGetChannelParams e channel b) = Inr (Some params)"
  shows "\<exists>b1. maybeGetChannelParams e channel b = (Inr (Some params), b1)
            \<and> evolves b (objs b) b1"
proof -
  obtain b0 where r: "maybeGetChannelParams e channel b = (Inr (Some params), b0)"
    using res by (cases "maybeGetChannelParams e channel b") simp
  note f = maybeGetChannelParams_Some [OF r]
  from f(4,5) have "firstPath (\<lambda>ob. contains (opath ob) (getChannelName e channel) \<and> isEth ob)
           (ifaces e (objs b)) \<noteq> []" by simp
  from maybeGetChannelParams_ok [OF nf f(1) this] r show ?thesis by auto
qed

lemma channelCall_reconfigureVLAN_ok:
  assumes nf: "nofault b"
    and res: "fst (maybeGetChannelParams e channel b) = Inr (Some params)"
  shows "\<exists>b'. channelCall e channel (\<lambda>p. reconfigureVLAN e p vlan) b
               = (Inr (params\<lparr>logicalPath := newLogicalPath e b params vlan\<rparr>), b')
     \<and> evolves b (swapped e b params vlan) b'"
proof -
  obtain b1 where r: "maybeGetChannelParams e channel b = (Inr (Some params), b1)"
    and e1: "evolves b (objs b) b1"
    using resolve_run [OF nf res] by blast
  have nf1: "nofault b1" using e1 nf by (rule evolves_nofault)
  have ro: "resolvedOn e b1 params"
    using e1 resolvedOn_resolution [OF r] by (rule resolvedOn_same)
  obtain b' where v: "reconfigureVLAN e params vlan b1
               = (Inr (params\<lparr>logicalPath := newLogicalPath e b1 params vlan\<rparr>), b')"
    and e2: "evolves b1 (swapped e b1 params vlan) b'"
    using reconfigureVLAN_ok [OF nf1 ro] by blast
  have "channelCall e channel (\<lambda>p. reconfigureVLAN e p vlan) b
        = (Inr (params\<lparr>logicalPath := newLogicalPath e b params vlan\<rparr>), b')"
    using v r unfolding channelCall_def evolves_same(2) [OF e1]
    by (simp add: bindM_def)
  moreover have "evolves b (swapped e b params vlan) b'"
    using evolves_trans [OF e1 e2] unfolding evolves_same(1) [OF e1] .
  ultimately show ?thesis by blast
qed

lemma firstPath_nonempty_vlanPath: "vlanPath b root name i \<noteq> []"
  by (simp add: vlanPath_def)

lemma resolve_after:
  assumes nf: "nofault b"
    and res: "fst (maybeGetChannelParams e channel b) = Inr (Some params)"
    and ev: "evolves b (swapped e b params vlan) b'"
  shows "\<exists>params' b''. maybeGetChannelParams e channel b' = (Inr (Some params'), b'')
            \<and> evolves b' (objs b') b''
            \<and> ifPath params' = ifPath params
            \<and> logicalPath params' = newLogicalPath e b params vlan"
proof -
  define name where "name = getChannelName e channel"
  obtain b1 where r: "maybeGetChannelParams e channel b = (Inr (Some params), b1)"
    using resolve_run [OF nf res] by blast
  note f = maybeGetChannelParams_Some [OF r, folded name_def]
  have nf': "nofault b'" using ev nf by (rule evolves_nofault)
  have ob: "objs b' = swapped e b params vlan" using ev by (rule evolves_fields)
  have eth: "firstPath (\<lambda>ob. contains (opath ob) name \<and> isEth ob) (ifaces e (objs b'))
             = ifPath params"
    unfolding f(4) ob firstPath_conv swapped_eth ..
  have vl: "firstPath (\<lambda>ob. contains (opath ob) name \<and> isVlan ob) (ifaces e (objs b'))
             = (if vlan = 0 then [] else vlanPath b (PATH_ROOT e) name (ucast vlan))"
    using swapped_vlan [of params e b vlan] f(1,2)
    unfolding ob firstPath_conv by simp
  have ne: "firstPath (\<lambda>ob. contains (opath ob) name \<and> isEth ob) (ifaces e (objs b')) \<noteq> []"
    using eth f(5) by simp
  obtain params' b'' where r': "maybeGetChannelParams e channel b' = (Inr (Some params'), b'')"
    and e': "evolves b' (objs b') b''"
    using maybeGetChannelParams_ok [OF nf', of e channel] f(1) ne unfolding name_def by blast
  note g = maybeGetChannelParams_Some [OF r', folded name_def]
  have i: "ifPath params' = ifPath params" using g(4) eth by simp
  have l: "logicalPath params' = newLogicalPath e b params vlan"
    using g(6) vl i f(2) by (simp add: newLogicalPath_def firstPath_nonempty_vlanPath)
  from r' e' i l show ?thesis by blast
qed

lemma vlanIdAt_conv:
  "vlanIdAt p os = (case filter (\<lambda>ob. opath ob = p \<and> isVlan ob) os of
                      [] \<Rightarrow> None | ob # rest \<Rightarrow> vlanIdOf (okind ob))"
proof (induction os)
  case Nil
  show ?case by simp
next
  case (Cons ob os)
  show ?case
  proof (cases "okind ob")
    case (VlanIf i d)
    then show ?thesis using Cons by (simp add: isVlan_def)
  qed (use Cons in \<open>simp_all add: isVlan_def\<close>)
qed

lemma vlanIdOf_withDhcp [simp]: "vlanIdOf (withDhcp d k) = vlanIdOf k"
  by (cases k) simp_all

lemma vlanIdOf_setDhcpAt [simp]: "vlanIdOf (okind (setDhcpAt q d ob)) = vlanIdOf (okind ob)"
  by (simp add: setDhcpAt_def)

lemma vlanIdAt_swapped:
  assumes name: "ifname params \<noteq> []" and vlan: "vlan \<noteq> 0"
  shows "vlanIdAt (vlanPath b (PATH_ROOT e) (ifname params) (ucast vlan))
           (swapped e b params vlan) = Some (ucast vlan)"
proof -
  define p where "p = vlanPath b (PATH_ROOT e) (ifname params) (ucast vlan)"
  define Q where "Q = (\<lambda>ob. opath ob = p \<and> isVlan ob)"
  have Qs: "Q (setDhcpAt q d ob) = Q ob" for q d ob by (simp add: Q_def)
  have Qi: "Q ob \<Longrightarrow> isEth ob \<or> isVlan ob" for ob by (simp add: Q_def)
  have gone: "\<not> survives (PATH_ROOT e) (ifname params) ob" if "Q ob" for ob
  proof (rule isVlan_not_survives)
    show "isVlan ob" using that by (simp add: Q_def)
    show "underPath (PATH_ROOT e) (opath ob)"
      using that name by (simp add: Q_def p_def vlanPath_under)
    show "contains (opath ob) (ifname params)"
      using that by (simp add: Q_def p_def vlanPath_contains)
  qed
  have surv: "filter (\<lambda>ob. survives (PATH_ROOT e) (ifname params) ob \<and> Q ob) (objs b) = []"
    by (auto simp add: filter_empty_conv dest: gone)
  have vl: "filter Q (swapVlan e b params vlan)
            = [vlanObj b (service params) (PATH_ROOT e) (ifname params) (ucast vlan)]"
    using vlan by (simp add: swapVlan_def Q_def p_def vlanObj_def isVlan_def)
  have "filter Q (swapped e b params vlan)
        = [setDhcpAt (newLogicalPath e b params vlan) (snapDhcp b params)
             (vlanObj b (service params) (PATH_ROOT e) (ifname params) (ucast vlan))]"
    using filter_swapped [of Q e b params vlan, OF Qs Qi] surv vl by simp
  then show ?thesis
    unfolding p_def [symmetric] vlanIdAt_conv Q_def [symmetric]
    by (simp add: vlanObj_def)
qed

lemma VLAN_VALUE_MASK_mask: "ucast VLAN_VALUE_MASK = (mask 12 :: uint32_t)"
  by (simp add: VLAN_VALUE_MASK_def mask_eq_exp_minus_1)

lemma VLAN_ENABLE_FLAG_bit: "VLAN_ENABLE_FLAG = (push_bit 15 1 :: uint16_t)"
  by (simp add: VLAN_ENABLE_FLAG_def)

lemma ucast_12_16_inj: "(ucast (a :: 12 word) :: uint16_t) = ucast b \<longleftrightarrow> a = b"
proof
  assume eq: "(ucast a :: uint16_t) = ucast b"
  show "a = b"
  proof (rule bit_word_eqI)
    fix n assume n: "n < LENGTH(12)"
    from eq have "bit (ucast a :: uint16_t) n = bit (ucast b :: uint16_t) n" by simp
    then show "bit a n = bit b n" using n by (simp add: bit_ucast_iff)
  qed
qed simp

lemma bit_VLAN_ENABLE_FLAG: "bit VLAN_ENABLE_FLAG n \<longleftrightarrow> n = 15"
  unfolding VLAN_ENABLE_FLAG_bit bit_push_bit_iff by (auto simp add: bit_1_iff)

lemma vlan_word:
  fixes v :: "12 word"
  shows "((ucast (ucast v :: uint16_t) :: uint32_t) AND ucast VLAN_VALUE_MASK)
          = ucast (ucast v :: uint16_t)"
    "(ucast (ucast (ucast v :: uint16_t) :: uint32_t) :: uint16_t) = ucast v"
    "(ucast v :: uint16_t) = 0 \<longleftrightarrow> v = 0"
    "(ucast v :: uint16_t) AND VLAN_ENABLE_FLAG = 0"
    "(ucast v :: uint16_t) = VLAN_VALUE_MASK \<longleftrightarrow> v = 0xFFF"
proof -
  show "((ucast (ucast v :: uint16_t) :: uint32_t) AND ucast VLAN_VALUE_MASK)
          = ucast (ucast v :: uint16_t)"
    unfolding VLAN_VALUE_MASK_mask
    by (rule bit_word_eqI) (auto simp add: bit_simps dest: bit_imp_le_length)
  show "(ucast (ucast (ucast v :: uint16_t) :: uint32_t) :: uint16_t) = ucast v"
    by (rule bit_word_eqI) (auto simp add: bit_simps)
  show "(ucast v :: uint16_t) = 0 \<longleftrightarrow> v = 0"
    using ucast_12_16_inj [of v 0] by simp
  show "(ucast v :: uint16_t) AND VLAN_ENABLE_FLAG = 0"
    by (rule bit_word_eqI)
      (auto simp add: bit_and_iff bit_ucast_iff bit_VLAN_ENABLE_FLAG dest: bit_imp_le_length)
  show "(ucast v :: uint16_t) = VLAN_VALUE_MASK \<longleftrightarrow> v = 0xFFF"
    using ucast_12_16_inj [of v "0xFFF"] by (simp add: VLAN_VALUE_MASK_def)
qed

text \<open>The identifier that the channel reads back after \<open>reconfigureVLAN\<close>.\<close>

lemma reconfigureVLAN_then_getVLANProperty:
  fixes v :: "12 word"
  assumes nf: "nofault b"
    and res: "fst (maybeGetChannelParams e channel b) = Inr (Some params)"
    and vlan: "vlan = 0 \<or> vlan = ucast v
                 \<and> vlanPath b (PATH_ROOT e) (ifname params) (ucast vlan) \<noteq> ifPath params"
  shows "\<exists>pr b' b''. channelCall e channel (\<lambda>p. reconfigureVLAN e p vlan) b = (Inr pr, b')
            \<and> channelCall e channel getVLANProperty b' = (Inr vlan, b'')"
proof -
  obtain b1 where r: "maybeGetChannelParams e channel b = (Inr (Some params), b1)"
    using resolve_run [OF nf res] by blast
  note f = maybeGetChannelParams_Some [OF r]
  have name: "ifname params \<noteq> []" using f(1,2) by simp
  obtain b' where c: "channelCall e channel (\<lambda>p. reconfigureVLAN e p vlan) b
               = (Inr (params\<lparr>logicalPath := newLogicalPath e b params vlan\<rparr>), b')"
    and ev: "evolves b (swapped e b params vlan) b'"
    using channelCall_reconfigureVLAN_ok [OF nf res] by blast
  obtain params' b2 where r': "maybeGetChannelParams e channel b' = (Inr (Some params'), b2)"
    and e2: "evolves b' (objs b') b2"
    and i: "ifPath params' = ifPath params"
    and l: "logicalPath params' = newLogicalPath e b params vlan"
    using resolve_after [OF nf res ev] by blast
  have nf2: "nofault b2" using e2 evolves_nofault [OF ev nf] by (rule evolves_nofault)
  have ob2: "objs b2 = swapped e b params vlan"
    using evolves_fields(1) [OF e2] evolves_fields(1) [OF ev] by simp
  have "\<exists>b''. getVLANProperty params' b2 = (Inr vlan, b'')"
  proof (cases "vlan = 0")
    case True
    then show ?thesis by (simp add: getVLANProperty_def i l newLogicalPath_def returnM_def)
  next
    case False
    then have v: "vlan = ucast v"
      and fresh: "vlanPath b (PATH_ROOT e) (ifname params) (ucast vlan) \<noteq> ifPath params"
      using vlan by auto
    have lp: "logicalPath params' = vlanPath b (PATH_ROOT e) (ifname params) (ucast vlan)"
      using False l by (simp add: newLogicalPath_def)
    have "vlanIdAt (logicalPath params') (objs b2) = Some (ucast vlan)"
      unfolding lp ob2 using name False by (rule vlanIdAt_swapped)
    then obtain b3 where g: "GetVlanId (service params') (logicalPath params') b2
                              = (Inr (ucast vlan), b3)"
      using GetVlanId_ok [OF nf2] by blast
    have ne: "ifPath params' \<noteq> logicalPath params'" using fresh i lp by simp
    show ?thesis
      using g ne unfolding getVLANProperty_def v
      by (simp add: bindM_def returnM_def vlan_word)
  qed
  then obtain b'' where "getVLANProperty params' b2 = (Inr vlan, b'')" by blast
  then have "channelCall e channel getVLANProperty b' = (Inr vlan, b'')"
    using r' by (simp add: channelCall_def bindM_def)
  with c show ?thesis by blast
qed

text \<open>
  Claim C5. On a valid channel, for a VLANId request that decodes to the identifier
  \<open>vlanData\<close>, the reserved bits and the enable bit: nonzero reserved bits are answered
  with the invalid-field error, and so is an enabled request whose identifier is 0 or
  0xFFF; neither changes anything. For the other requests, on a service that answers
  every request and a channel that resolves: a disabled request succeeds, records the
  identifier as the last disabled one, and a following read of VLANId returns that
  identifier, whose enable bit is clear; an enabled request succeeds and a following
  read returns the identifier with the enable flag set, provided the service creates
  the VLAN interface at a path other than that of the physical interface.
\<close>

theorem setLanVLANId_readback:
  fixes vlanData :: "12 word"
  assumes valid: "isValidChannel e (convertCurrentChannelNum e (ucast channelBits) ctx)"
    and req: "unpackVlan req = Some (vlanData, reserved, vlanEnable)"
  shows "(let ch = convertCurrentChannelNum e (ucast channelBits) ctx;
              r = setLan e ctx channelBits 0 VLANId req st;
              g = getLan e ctx channelBits 0 False VLANId 0 0 (snd r)
          in (reserved \<noteq> 0 \<longrightarrow> r = (Inr ccInvalidFieldRequest, st))
           \<and> (reserved = 0 \<and> vlanEnable \<and> (vlanData = 0 \<or> vlanData = 0xFFF) \<longrightarrow>
                r = (Inr ccInvalidFieldRequest, st))
           \<and> (reserved = 0 \<and> \<not> vlanEnable \<and> nofault (dbus st)
                \<and> fst (maybeGetChannelParams e ch (dbus st)) = Inr (Some params) \<longrightarrow>
                fst r = Inr ccSuccess
                \<and> lastDisabledVlan (snd r) ch = Some (ucast vlanData)
                \<and> fst g = Inr (ccSuccess, [current_revision] @ packU16 (ucast vlanData))
                \<and> (ucast vlanData :: uint16_t) AND VLAN_ENABLE_FLAG = 0)
           \<and> (reserved = 0 \<and> vlanEnable \<and> vlanData \<noteq> 0 \<and> vlanData \<noteq> 0xFFF
                \<and> nofault (dbus st)
                \<and> fst (maybeGetChannelParams e ch (dbus st)) = Inr (Some params)
                \<and> vlanPath (dbus st) (PATH_ROOT e) (ifname params)
                     (ucast (ucast vlanData :: uint16_t)) \<noteq> ifPath params \<longrightarrow>
                fst r = Inr ccSuccess
                \<and> fst g = Inr (ccSuccess,
                     [current_revision] @ packU16 (ucast vlanData OR VLAN_ENABLE_FLAG))))"
proof -
  define ch where "ch = convertCurrentChannelNum e (ucast channelBits) ctx"
  define vlan :: uint16_t where "vlan = ucast vlanData"
  have set: "setLan e ctx channelBits 0 VLANId req = setLanVLANId e ch req"
    using valid by (simp add: setLan_def ch_def)
  have get: "getLan e ctx channelBits 0 False VLANId 0 0 = getLanVLANId e [current_revision] ch"
    using valid by (simp add: getLan_def ch_def)
  have rej1: "reserved \<noteq> 0 \<Longrightarrow> setLanVLANId e ch req st = (Inr ccInvalidFieldRequest, st)"
    using req by (simp add: setLanVLANId_def)
  have rej2: "reserved = 0 \<Longrightarrow> vlanEnable \<Longrightarrow> vlanData = 0 \<or> vlanData = 0xFFF
              \<Longrightarrow> setLanVLANId e ch req st = (Inr ccInvalidFieldRequest, st)"
    using req vlan_word(3,5) [of vlanData] by (auto simp add: setLanVLANId_def Let_def)
  have dis: "fst (setLanVLANId e ch req st) = Inr ccSuccess
             \<and> lastDisabledVlan (snd (setLanVLANId e ch req st)) ch = Some vlan
             \<and> fst (getLanVLANId e [current_revision] ch (snd (setLanVLANId e ch req st)))
                 = Inr (ccSuccess, [current_revision] @ packU16 vlan)"
    if r0: "reserved = 0" and en: "\<not> vlanEnable" and nf: "nofault (dbus st)"
      and res: "fst (maybeGetChannelParams e ch (dbus st)) = Inr (Some params)"
  proof -
    obtain pr b' b'' where
      c: "channelCall e ch (\<lambda>p. reconfigureVLAN e p 0) (dbus st) = (Inr pr, b')"
      and g: "channelCall e ch getVLANProperty b' = (Inr 0, b'')"
      using reconfigureVLAN_then_getVLANProperty [OF nf res, of 0 vlanData] by auto
    have s: "setLanVLANId e ch req st
             = (Inr ccSuccess,
                st\<lparr>lastDisabledVlan := (lastDisabledVlan st)(ch \<mapsto> vlan), dbus := b'\<rparr>)"
      using req r0 en c
      by (simp add: setLanVLANId_def Let_def bindM_def liftBus_def returnM_def vlan_def)
    show ?thesis unfolding s using g
      by (simp add: getLanVLANId_def bindM_def liftBus_def)
  qed
  have en: "fst (setLanVLANId e ch req st) = Inr ccSuccess
             \<and> fst (getLanVLANId e [current_revision] ch (snd (setLanVLANId e ch req st)))
                 = Inr (ccSuccess, [current_revision] @ packU16 (vlan OR VLAN_ENABLE_FLAG))"
    if r0: "reserved = 0" and en: "vlanEnable" and nz: "vlanData \<noteq> 0" "vlanData \<noteq> 0xFFF"
      and nf: "nofault (dbus st)"
      and res: "fst (maybeGetChannelParams e ch (dbus st)) = Inr (Some params)"
      and fresh: "vlanPath (dbus st) (PATH_ROOT e) (ifname params) (ucast vlan) \<noteq> ifPath params"
  proof -
    have vz: "vlan \<noteq> 0" "vlan \<noteq> VLAN_VALUE_MASK"
      using nz vlan_word(3,5) [of vlanData] by (simp_all add: vlan_def)
    obtain pr b' b'' where
      c: "channelCall e ch (\<lambda>p. reconfigureVLAN e p vlan) (dbus st) = (Inr pr, b')"
      and g: "channelCall e ch getVLANProperty b' = (Inr vlan, b'')"
      using reconfigureVLAN_then_getVLANProperty [OF nf res, of vlan vlanData] fresh
      by (auto simp add: vlan_def)
    have s: "setLanVLANId e ch req st = (Inr ccSuccess, st\<lparr>dbus := b'\<rparr>)"
      using req r0 en c vz
      by (simp add: setLanVLANId_def Let_def bindM_def liftBus_def returnM_def
          vlan_def [symmetric])
    show ?thesis unfolding s using g vz
      by (simp add: getLanVLANId_def bindM_def liftBus_def)
  qed
  show ?thesis
    unfolding Let_def set get ch_def [symmetric] vlan_def [symmetric]
    using rej1 rej2 dis en vlan_word(4) [of vlanData]
    by (auto simp add: vlan_def)
qed

text \<open>
  On the example, with VLAN 100: enabled it reads back as 100 with the flag, disabled
  as 100 without; reserved bits, and the identifiers 0 and 0xFFF when enabled, are
  refused.
\<close>

theorem setLanVLANId_readback_witness:
  "isValidChannel exEnv (convertCurrentChannelNum exEnv (ucast (1 :: 4 word)) 1)
   \<and> unpackVlan [100, 0x80] = Some (100, 0, True)
   \<and> unpackVlan [100, 0] = Some (100, 0, False)
   \<and> unpackVlan [100, 0x10] = Some (100, 1, False)
   \<and> unpackVlan [0, 0x80] = Some (0, 0, True)
   \<and> unpackVlan [0xFF, 0x8F] = Some (0xFFF, 0, True)
   \<and> nofault (dbus (exState (exBus both [])))
   \<and> fst (maybeGetChannelParams exEnv 1 (dbus (exState (exBus both [])))) = Inr (Some exParams)
   \<and> vlanPath (dbus (exState (exBus both []))) (PATH_ROOT exEnv) (ifname exParams)
        (ucast (ucast (100 :: 12 word) :: uint16_t)) \<noteq> ifPath exParams
   \<and> fst (getLan exEnv 1 1 0 False VLANId 0 0
            (snd (setLan exEnv 1 1 0 VLANId [100, 0x80] (exState (exBus both [])))))
       = Inr (ccSuccess, [0x11, 100, 0x80])
   \<and> fst (getLan exEnv 1 1 0 False VLANId 0 0
            (snd (setLan exEnv 1 1 0 VLANId [100, 0] (exState (exBus both [])))))
       = Inr (ccSuccess, [0x11, 100, 0])
   \<and> fst (setLan exEnv 1 1 0 VLANId [100, 0x10] (exState (exBus both [])))
       = Inr ccInvalidFieldRequest
   \<and> fst (setLan exEnv 1 1 0 VLANId [0, 0x80] (exState (exBus both [])))
       = Inr ccInvalidFieldRequest
   \<and> fst (setLan exEnv 1 1 0 VLANId [0xFF, 0x8F] (exState (exBus both [])))
       = Inr ccInvalidFieldRequest"
proof -
  define st where "st = exState (exBus both [])"
  have h1: "isValidChannel exEnv (convertCurrentChannelNum exEnv (ucast (1 :: 4 word)) 1)"
    by (simp add: exEnv_def)
  have ch: "convertCurrentChannelNum exEnv 1 1 = 1" by (simp add: exEnv_def)
  have u1: "unpackVlan [100, 0x80] = Some (100, 0, True)" by code_simp
  have u2: "unpackVlan [100, 0] = Some (100, 0, False)" by code_simp
  have u3: "unpackVlan [100, 0x10] = Some (100, 1, False)" by code_simp
  have u4: "unpackVlan [0, 0x80] = Some (0, 0, True)" by code_simp
  have u5: "unpackVlan [0xFF, 0x8F] = Some (0xFFF, 0, True)" by code_simp
  have nf: "nofault (dbus st)" by (simp add: st_def nofault_def exState_def exBus_def)
  have res: "fst (maybeGetChannelParams exEnv 1 (dbus st)) = Inr (Some exParams)"
    unfolding st_def by code_simp
  have fresh: "vlanPath (dbus st) (PATH_ROOT exEnv) (ifname exParams)
        (ucast (ucast (100 :: 12 word) :: uint16_t)) \<noteq> ifPath exParams"
    unfolding st_def by code_simp
  have p1: "packU16 (100 OR VLAN_ENABLE_FLAG) = [100, 0x80]" by code_simp
  have p2: "packU16 100 = [100, 0]" by code_simp
  have a: "fst (getLan exEnv 1 1 0 False VLANId 0 0 (snd (setLan exEnv 1 1 0 VLANId [100, 0x80] st)))
       = Inr (ccSuccess, [0x11, 100, 0x80])"
    using setLanVLANId_readback [OF h1 u1, where params = exParams and st = st] nf res fresh
    by (simp add: Let_def ch p1 current_revision_def)
  have b: "fst (getLan exEnv 1 1 0 False VLANId 0 0 (snd (setLan exEnv 1 1 0 VLANId [100, 0] st)))
       = Inr (ccSuccess, [0x11, 100, 0])"
    using setLanVLANId_readback [OF h1 u2, where params = exParams and st = st] nf res
    by (simp add: Let_def ch p2 current_revision_def)
  have c: "fst (setLan exEnv 1 1 0 VLANId [100, 0x10] st) = Inr ccInvalidFieldRequest"
    using setLanVLANId_readback [OF h1 u3, where params = exParams and st = st] by (simp add: Let_def)
  have d: "fst (setLan exEnv 1 1 0 VLANId [0, 0x80] st) = Inr ccInvalidFieldRequest"
    using setLanVLANId_readback [OF h1 u4, where params = exParams and st = st] by (simp add: Let_def)
  have f: "fst (setLan exEnv 1 1 0 VLANId [0xFF, 0x8F] st) = Inr ccInvalidFieldRequest"
    using setLanVLANId_readback [OF h1 u5, where params = exParams and st = st] by (simp add: Let_def)
  from h1 u1 u2 u3 u4 u5 nf res fresh a b c d f show ?thesis
    unfolding st_def by (intro conjI)
qed

section \<open>Restoring the configuration after a VLAN change: proofs\<close>































end
